theory Spec2Isabelle
  imports Complex_Main
begin

section \<open>McSAS3: the Monte Carlo core, the result aggregator and the HDF5 helper\<close>

text \<open>
  A shallow embedding of \<^verbatim>\<open>mcsas3/mccore.py\<close>, \<^verbatim>\<open>mcsas3/mcanalysis.py\<close> and
  \<^verbatim>\<open>mcsas3/McHDF.py\<close>. Python objects are records, mutation is explicit state
  passing, an exception is the \<open>Inl\<close> branch of a sum, numpy vectors are lists of reals
  (so the floating-point values \<open>nan\<close> and \<open>inf\<close> and rounding are outside the model),
  and Python integers are \<open>int\<close>. Output on the console (\<^verbatim>\<open>print\<close>) is not modelled.
\<close>

subsection \<open>Errors\<close>

datatype error =
    AssertionError string
  | AttributeError
  | KeyError
  | IndexError
  | ZeroDivisionError
  | ValueError
  | TypeError
  | IllConditioned
  | IOError
  | FileNotFoundError

subsection \<open>numpy arithmetic on one-dimensional arrays\<close>

text \<open>
  A binary operation on two one-dimensional arrays works element by element when the
  lengths agree, repeats the single element of an array of length 1 (broadcasting), and
  raises \<^verbatim>\<open>ValueError\<close> for any other pair of lengths.
\<close>

definition np_binop :: "(real \<Rightarrow> real \<Rightarrow> 'a) \<Rightarrow> real list \<Rightarrow> real list \<Rightarrow> error + 'a list" where
  "np_binop f a b =
     (if length a = length b then Inr (map2 f a b)
      else if length a = 1 then Inr (map (f (hd a)) b)
      else if length b = 1 then Inr (map (\<lambda>x. f x (hd b)) a)
      else Inl ValueError)"

text \<open>
  The in-place form \<^verbatim>\<open>a += b\<close> keeps the shape of \<open>a\<close>: only \<open>b\<close> may be broadcast.
\<close>

definition np_iadd :: "real list \<Rightarrow> real list \<Rightarrow> error + real list" where
  "np_iadd a b =
     (if length a = length b then Inr (map2 (+) a b)
      else if length b = 1 then Inr (map (\<lambda>x. x + hd b) a)
      else Inl ValueError)"

text \<open>
  \<^verbatim>\<open>a[i] = v\<close> on an array: a negative index counts from the end, an index out of
  range raises \<^verbatim>\<open>IndexError\<close>.
\<close>

definition np_setitem :: "real list \<Rightarrow> int \<Rightarrow> real \<Rightarrow> error + real list" where
  "np_setitem a i v =
     (if 0 \<le> i \<and> i < int (length a) then Inr (a[nat i := v])
      else if i < 0 \<and> - int (length a) \<le> i then Inr (a[nat (int (length a) + i) := v])
      else Inl IndexError)"

subsection \<open>The data of a Monte Carlo run\<close>

text \<open>A contribution, or any parameter dictionary: parameter name to value.\<close>

type_synonym params = "string \<rightharpoonup> real"

text \<open>
  What \<^verbatim>\<open>sasmodels.direct_model.call_Fq\<close> returns:
  \<^verbatim>\<open>F, Fsq, R_eff, V_shell, V_ratio\<close>. The kernel is an opaque, deterministic function
  of the parameter dictionary, bound to one Q vector by \<^verbatim>\<open>make_kernel\<close>.
\<close>

record Fq =
  Fq_F :: "real list"
  Fsq :: "real list"
  R_eff :: real
  V_shell :: real
  V_ratio :: real

type_synonym kernel_fn = "params \<Rightarrow> Fq"

text \<open>
  The scale and background solver \<^verbatim>\<open>optimizeScalingAndBackground(I, ISigma)\<close> lives in
  \<^verbatim>\<open>osb.py\<close>; the core only calls \<^verbatim>\<open>match(testData, x0)\<close>, which returns the
  optimised \<open>(scaling, background)\<close> and the goodness of fit, or raises.
\<close>

type_synonym osb_match = "real list \<Rightarrow> real \<times> real \<Rightarrow> error + ((real \<times> real) \<times> real)"

record measData =
  Q :: "real list"
  I :: "real list"
  ISigma :: "real list"

text \<open>
  \<^verbatim>\<open>McModel\<close>: \<open>parameterSet\<close> is a pandas DataFrame addressed by row label
  (\<^verbatim>\<open>.loc[i]\<close>), hence a map from label to row; \<open>volumes\<close> is a numpy array;
  \<open>func\<close> stands for \<^verbatim>\<open>func.make_kernel\<close>; \<open>draws\<close> is the stream of future random
  draws from the prior, the state of the random number generator.
\<close>

record McModel =
  parameterSet :: "int \<rightharpoonup> params"
  volumes :: "real list"
  nContrib :: int
  staticParameters :: params
  pickParameters :: params
  func :: "real list \<Rightarrow> kernel_fn"
  kernel :: kernel_fn
  draws :: "nat \<Rightarrow> params"

record McOpt =
  modelI :: "real list"
  x0 :: "real \<times> real"
  gof :: real
  testModelI :: "real list"
  testX0 :: "real \<times> real"
  testModelV :: real
  step :: int
  accepted :: int
  maxIter :: int
  maxAccept :: int
  convCrit :: real
  repetition :: int

record McCore =
  core_measData :: measData
  model :: McModel
  opt :: McOpt
  OSB :: osb_match

text \<open>
  What the core takes from outside \<^verbatim>\<open>mccore.py\<close>: the solver's constructor, the two
  loaders \<^verbatim>\<open>McModel(loadFromFile, loadFromRepetition)\<close> and
  \<^verbatim>\<open>McOpt(loadFromFile, loadFromRepetition)\<close>, and numpy's
  \<^verbatim>\<open>np.testing.assert_approx_equal(actual, desired, significant)\<close>, here the test it
  makes (\<open>True\<close>: no exception).
\<close>

record env =
  optimizeScalingAndBackground :: "real list \<Rightarrow> real list \<Rightarrow> osb_match"
  McModel_load :: "string \<Rightarrow> int \<Rightarrow> error + McModel"
  McOpt_load :: "string \<Rightarrow> int \<Rightarrow> error + McOpt"
  approx_equal :: "real \<Rightarrow> real \<Rightarrow> nat \<Rightarrow> bool"

subsection \<open>McModel.pick\<close>

text \<open>
  Modelled from the spec: \<^verbatim>\<open>McModel.pick\<close> (\<^verbatim>\<open>mcmodel.py\<close> is not among the
  sources). "pick(): sets pickParameters to a fresh independent draw from the prior; does
  not mutate parameterSet." The fresh draw is the next element of \<open>draws\<close>.
\<close>

definition pick :: "McModel \<Rightarrow> McModel" where
  "pick m = m\<lparr>pickParameters := draws m 0, draws := (\<lambda>n. draws m (Suc n))\<rparr>"

subsection \<open>McCore\<close>

text \<open>
  \<^verbatim>\<open>calcModelIV\<close>: the kernel is called on \<^verbatim>\<open>dict(staticParameters, **parameters)\<close>,
  in which \<open>parameters\<close> wins; the result is \<^verbatim>\<open>Fsq/V_shell, V_shell\<close>.
\<close>

definition calcModelIV :: "McCore \<Rightarrow> params \<Rightarrow> real list \<times> real" where
  "calcModelIV c parameters =
     (let r = kernel (model c) (staticParameters (model c) ++ parameters)
      in (map (\<lambda>x. x / V_shell r) (Fsq r), V_shell r))"

text \<open>\<^verbatim>\<open>parameterSet.loc[i].to_dict()\<close>: a missing label raises \<^verbatim>\<open>KeyError\<close>.\<close>

definition loc :: "McModel \<Rightarrow> int \<Rightarrow> error + params" where
  "loc m i = (case parameterSet m i of None \<Rightarrow> Inl KeyError | Some row \<Rightarrow> Inr row)"

text \<open>
  The loop of \<^verbatim>\<open>initModelI\<close> over \<^verbatim>\<open>range(nContrib)\<close>, on the list of indices still
  to visit (\<open>[0 .. n - 1]\<close> is the list of integers from 0 to \<open>n - 1\<close>).
\<close>

fun initModelI_loop :: "int list \<Rightarrow> McCore \<Rightarrow> error + McCore" where
  "initModelI_loop [] c = Inr c"
| "initModelI_loop (contribi # rest) c =
     (case loc (model c) contribi of
        Inl e \<Rightarrow> Inl e
      | Inr row \<Rightarrow>
          (let (Iv, V) = calcModelIV c row
           in case np_iadd (modelI (opt c)) (map (\<lambda>x. x / real_of_int (nContrib (model c))) Iv) of
                Inl e \<Rightarrow> Inl e
              | Inr mI \<Rightarrow>
                  (case np_setitem (volumes (model c)) contribi V of
                     Inl e \<Rightarrow> Inl e
                   | Inr vols \<Rightarrow>
                       initModelI_loop rest
                         (c\<lparr>opt := (opt c)\<lparr>modelI := mI\<rparr>,
                            model := (model c)\<lparr>volumes := vols\<rparr>\<rparr>))))"

text \<open>
  \<^verbatim>\<open>initModelI\<close>: \<^verbatim>\<open>np.zeros(nContrib)\<close> raises \<^verbatim>\<open>ValueError\<close> for a negative
  count.
\<close>

definition initModelI :: "McCore \<Rightarrow> error + McCore" where
  "initModelI c =
     (case loc (model c) 0 of
        Inl e \<Rightarrow> Inl e
      | Inr row \<Rightarrow>
          (let (Iv, V) = calcModelIV c row
           in if nContrib (model c) < 0 then Inl ValueError
              else initModelI_loop [0 .. nContrib (model c) - 1]
                     (c\<lparr>opt := (opt c)\<lparr>modelI := replicate (length Iv) 0\<rparr>,
                        model := (model c)\<lparr>volumes := replicate (nat (nContrib (model c))) 0\<rparr>\<rparr>)))"

text \<open>\<^verbatim>\<open>evaluate(testData = None)\<close> returns the goodness of fit and stores \<open>testX0\<close>.\<close>

definition evaluate :: "McCore \<Rightarrow> real list option \<Rightarrow> error + (real \<times> McCore)" where
  "evaluate c testData =
     (let td = (case testData of None \<Rightarrow> modelI (opt c) | Some t \<Rightarrow> t)
      in case OSB c td (x0 (opt c)) of
           Inl e \<Rightarrow> Inl e
         | Inr (tx0, g) \<Rightarrow> Inr (g, c\<lparr>opt := (opt c)\<lparr>testX0 := tx0\<rparr>\<rparr>))"

text \<open>\<^verbatim>\<open>contribIndex\<close>: Python's \<open>%\<close> on integers, which raises for a zero divisor.\<close>

definition contribIndex :: "McCore \<Rightarrow> error + int" where
  "contribIndex c =
     (if nContrib (model c) = 0 then Inl ZeroDivisionError
      else Inr (step (opt c) mod nContrib (model c)))"

definition reEvaluate :: "McCore \<Rightarrow> error + (real \<times> McCore)" where
  "reEvaluate c =
     (case contribIndex c of
        Inl e \<Rightarrow> Inl e
      | Inr i \<Rightarrow>
          (case loc (model c) i of
             Inl e \<Rightarrow> Inl e
           | Inr row \<Rightarrow>
               (let (Iold, dummy) = calcModelIV c row;
                    (Ipick, Vpick) = calcModelIV c (pickParameters (model c))
                in case np_binop (-) Ipick Iold of
                     Inl e \<Rightarrow> Inl e
                   | Inr d \<Rightarrow>
                       (case np_binop (+) (modelI (opt c))
                               (map (\<lambda>x. x / real_of_int (nContrib (model c))) d) of
                          Inl e \<Rightarrow> Inl e
                        | Inr tI \<Rightarrow>
                            (let c1 = c\<lparr>opt := (opt c)\<lparr>testModelI := tI, testModelV := Vpick\<rparr>\<rparr>
                             in evaluate c1 (Some (testModelI (opt c1))))))))"

definition reject :: "McCore \<Rightarrow> McCore" where
  "reject c = c"

text \<open>
  \<^verbatim>\<open>accept\<close>: \<^verbatim>\<open>parameterSet.loc[i] = pickParameters\<close> sets the row with label \<open>i\<close>
  (and would add it if it were missing); the assignments follow the source's order.
\<close>

definition accept :: "McCore \<Rightarrow> error + McCore" where
  "accept c =
     (case contribIndex c of
        Inl e \<Rightarrow> Inl e
      | Inr i \<Rightarrow>
          (let c1 = c\<lparr>model := (model c)\<lparr>parameterSet :=
                          (parameterSet (model c))(i \<mapsto> pickParameters (model c))\<rparr>\<rparr>;
               c2 = c1\<lparr>opt := (opt c1)\<lparr>modelI := testModelI (opt c1)\<rparr>\<rparr>
           in case contribIndex c2 of
                Inl e \<Rightarrow> Inl e
              | Inr j \<Rightarrow>
                  (case np_setitem (volumes (model c2)) j (testModelV (opt c2)) of
                     Inl e \<Rightarrow> Inl e
                   | Inr vols \<Rightarrow>
                       (let c3 = c2\<lparr>model := (model c2)\<lparr>volumes := vols\<rparr>\<rparr>;
                            c4 = c3\<lparr>opt := (opt c3)\<lparr>x0 := testX0 (opt c3)\<rparr>\<rparr>
                        in Inr (c4\<lparr>opt := (opt c4)\<lparr>accepted := accepted (opt c4) + 1\<rparr>\<rparr>)))))"

definition iterate :: "McCore \<Rightarrow> error + McCore" where
  "iterate c =
     (let c1 = c\<lparr>model := pick (model c)\<rparr>
      in case reEvaluate c1 of
           Inl e \<Rightarrow> Inl e
         | Inr (newGof, c2) \<Rightarrow>
             (if newGof < gof (opt c2) then
                (case accept c2 of
                   Inl e \<Rightarrow> Inl e
                 | Inr c3 \<Rightarrow>
                     (let c4 = c3\<lparr>opt := (opt c3)\<lparr>gof := newGof\<rparr>\<rparr>
                      in Inr (c4\<lparr>opt := (opt c4)\<lparr>step := step (opt c4) + 1\<rparr>\<rparr>)))
              else Inr (c2\<lparr>opt := (opt c2)\<lparr>step := step (opt c2) + 1\<rparr>\<rparr>)))"

text \<open>The loop condition of \<^verbatim>\<open>optimize\<close>.\<close>

definition continue_cond :: "McCore \<Rightarrow> bool" where
  "continue_cond c \<longleftrightarrow>
     accepted (opt c) < maxAccept (opt c) \<and> step (opt c) < maxIter (opt c)
     \<and> gof (opt c) > convCrit (opt c)"

function optimize :: "McCore \<Rightarrow> error + McCore" where
  "optimize c =
     (if continue_cond c then
        (case iterate c of Inl e \<Rightarrow> Inl e | Inr c' \<Rightarrow> optimize c')
      else Inr c)"
  by pat_completeness auto
termination
proof (relation "measure (\<lambda>c. nat (maxIter (opt c) - step (opt c)))")
  show "wf (measure (\<lambda>c. nat (maxIter (opt c) - step (opt c))))"
    by simp
next
  fix c c'
  assume g: "continue_cond c" and it: "iterate c = Inr c'"
  from it have "step (opt c') = step (opt c) + 1 \<and> maxIter (opt c') = maxIter (opt c)"
    by (auto simp: iterate_def reEvaluate_def evaluate_def accept_def Let_def pick_def
        split: sum.splits prod.splits if_splits)
  with g show "(c', c) \<in> measure (\<lambda>c. nat (maxIter (opt c) - step (opt c)))"
    by (simp add: continue_cond_def)
qed

declare optimize.simps [simp del]

text \<open>
  \<^verbatim>\<open>load\<close>, called by the constructor with a file name: the repetition must be given.
\<close>

definition load :: "env \<Rightarrow> string \<Rightarrow> int option \<Rightarrow> error + (McModel \<times> McOpt)" where
  "load E loadFromFile loadFromRepetition =
     (case loadFromRepetition of
        None \<Rightarrow> Inl (AssertionError
          ''When you are loading from a file, a repetition index must be specified'')
      | Some r \<Rightarrow>
          (case McModel_load E loadFromFile r of
             Inl e \<Rightarrow> Inl e
           | Inr m \<Rightarrow>
               (case McOpt_load E loadFromFile r of
                  Inl e \<Rightarrow> Inl e
                | Inr ot \<Rightarrow> Inr (m, ot))))"

text \<open>
  The constructor \<^verbatim>\<open>McCore.__init__\<close>. \<open>measData\<close> is given (the assertion on it is in
  the type). A missing \<open>model\<close> or \<open>opt\<close> on the path without a file is an attribute
  access on \<^verbatim>\<open>None\<close>. The update of the sasmodels defaults with the static parameters
  is part of the opaque kernel.
\<close>

definition McCore_init ::
  "env \<Rightarrow> measData \<Rightarrow> McModel option \<Rightarrow> McOpt option \<Rightarrow> string option \<Rightarrow> int option
     \<Rightarrow> error + McCore" where
  "McCore_init E md model_arg opt_arg loadFromFile loadFromRepetition =
     (case (case loadFromFile of
              Some f \<Rightarrow> load E f loadFromRepetition
            | None \<Rightarrow>
                (case opt_arg of
                   None \<Rightarrow> Inl AttributeError
                 | Some ot \<Rightarrow>
                     (case model_arg of
                        None \<Rightarrow> Inl AttributeError
                      | Some m \<Rightarrow> Inr (m, ot\<lparr>step := 0, accepted := 0\<rparr>)))) of
        Inl e \<Rightarrow> Inl e
      | Inr (m, ot) \<Rightarrow>
          (let testGof = gof ot; testX0_loaded = x0 ot;
               c0 = \<lparr>core_measData = md, model = m\<lparr>kernel := func m (Q md)\<rparr>, opt = ot,
                     OSB = optimizeScalingAndBackground E (I md) (ISigma md)\<rparr>
           in case initModelI c0 of
                Inl e \<Rightarrow> Inl e
              | Inr c1 \<Rightarrow>
                  (case evaluate c1 None of
                     Inl e \<Rightarrow> Inl e
                   | Inr (g, c2) \<Rightarrow>
                       (let c3 = c2\<lparr>opt := (opt c2)\<lparr>gof := g\<rparr>\<rparr>;
                            c4 = c3\<lparr>opt := (opt c3)\<lparr>x0 := testX0 (opt c3)\<rparr>\<rparr>
                        in if loadFromFile \<noteq> None then
                             (if \<not> approx_equal E testGof (gof (opt c4)) 3 then
                                Inl (AssertionError
                                  ''goodness-of-fit mismatch between loaded results and new calculation'')
                              else if \<not> approx_equal E (fst testX0_loaded) (fst (x0 (opt c4))) 3 then
                                Inl (AssertionError
                                  ''scaling factor mismatch between loaded results and new calculation'')
                              else if \<not> approx_equal E (snd testX0_loaded) (snd (x0 (opt c4))) 3 then
                                Inl (AssertionError
                                  ''background mismatch between loaded results and new calculation'')
                              else Inr c4)
                           else Inr c4))))"

subsection \<open>Statistics of numpy and pandas\<close>

text \<open>
  The mean and the standard deviation with \<open>ddof\<close> delta degrees of freedom of a
  vector. \<open>None\<close> stands for the value that is not a finite number (\<open>nan\<close> or \<open>inf\<close>):
  the mean of nothing, and the standard deviation of no more than \<open>ddof\<close> values, which
  divides by zero.
\<close>

definition np_mean :: "real list \<Rightarrow> real option" where
  "np_mean xs = (if xs = [] then None else Some (sum_list xs / real (length xs)))"

definition np_std :: "nat \<Rightarrow> real list \<Rightarrow> real option" where
  "np_std ddof xs =
     (if length xs \<le> ddof then None
      else Some (sqrt (sum_list (map (\<lambda>x. (x - sum_list xs / real (length xs))\<^sup>2) xs)
                         / real (length xs - ddof))))"

text \<open>
  \<^verbatim>\<open>np.array\<close> of a list of vectors is a matrix only if all have one length;
  \<open>columns\<close> are what \<^verbatim>\<open>axis = 0\<close> runs over.
\<close>

definition np_array2 :: "real list list \<Rightarrow> error + real list list" where
  "np_array2 rows =
     (if list_all (\<lambda>r. length r = length (hd rows)) rows then Inr rows else Inl ValueError)"

definition columns :: "real list list \<Rightarrow> real list list" where
  "columns rows =
     (case rows of [] \<Rightarrow> [] | r # _ \<Rightarrow> map (\<lambda>k. map (\<lambda>row. row ! k) rows) [0 ..< length r])"

text \<open>
  A column of a pandas DataFrame may hold \<open>nan\<close> (\<open>None\<close>), which \<^verbatim>\<open>mean\<close> and
  \<^verbatim>\<open>std\<close> skip.
\<close>

definition pd_mean :: "real option list \<Rightarrow> real option" where
  "pd_mean col = np_mean (map the (filter (\<lambda>x. x \<noteq> None) col))"

definition pd_std :: "nat \<Rightarrow> real option list \<Rightarrow> real option" where
  "pd_std ddof col = np_std ddof (map the (filter (\<lambda>x. x \<noteq> None) col))"

definition np_diff :: "real list \<Rightarrow> real list" where
  "np_diff e = map2 (\<lambda>b a. b - a) (tl e) e"

subsection \<open>McAnalysis\<close>

text \<open>
  A Python dict whose entries are iterated, and the rows of a DataFrame by label:
  \<^verbatim>\<open>d[k] = v\<close> replaces the value of a key that is there and appends a new key.
\<close>

fun dict_set :: "('k \<times> 'v) list \<Rightarrow> 'k \<Rightarrow> 'v \<Rightarrow> ('k \<times> 'v) list" where
  "dict_set [] k v = [(k, v)]"
| "dict_set ((k', v') # d) k v =
     (if k' = k then (k, v) # d else (k', v') # dict_set d k v)"

record histRange =
  parameter :: string
  rangeMin :: real
  rangeMax :: real
  nBin :: int
  binScale :: string
  binWeighting :: string

text \<open>
  What the aggregator reads from a \<^verbatim>\<open>McModelHistogrammer\<close> (\<^verbatim>\<open>mcmodelhistogrammer.py\<close>
  is not among the sources): per histogram range its modes (a row of values by mode
  name), its bar heights and its bin edges.
\<close>

record histogrammer =
  mh_modes :: "int \<rightharpoonup> (string \<rightharpoonup> real)"
  mh_histDict :: "int \<rightharpoonup> real list"
  mh_binEdges :: "int \<rightharpoonup> real list"

record henv =
  McModelHistogrammer :: "McModel \<Rightarrow> (int \<times> histRange) list \<Rightarrow> error + histogrammer"
  mh_store :: "histogrammer \<Rightarrow> string \<Rightarrow> int \<Rightarrow> error option"

record optsRow =
  scaling :: real
  background :: real
  opts_gof :: real
  opts_accepted :: int
  opts_step :: int

text \<open>
  The fields of \<^verbatim>\<open>McAnalysis\<close> that the modelled methods use. \<open>concatI\<close>,
  \<open>concatModes\<close>, \<open>concatHistograms\<close> and \<open>concatBinEdges\<close> are attributes of the
  class that the constructor does not replace: what an earlier aggregator of the same
  process put there is still there.
\<close>

record McAnalysis =
  an_measData :: measData
  histRanges :: "(int \<times> histRange) list"
  repetitionList :: "int list"
  concatOpts :: "(int \<times> optsRow) list"
  concatI :: "(int \<times> real list) list"
  concatModes :: "int \<rightharpoonup> (int \<times> (string \<rightharpoonup> real)) list"
  concatHistograms :: "int \<rightharpoonup> (int \<rightharpoonup> real list)"
  concatBinEdges :: "int \<rightharpoonup> (int \<rightharpoonup> real list)"

definition modeKeys :: "string list" where
  "modeKeys = [''totalValue'', ''mean'', ''variance'', ''skew'', ''kurtosis'']"

definition ensureConcatEssentials :: "McAnalysis \<Rightarrow> int \<Rightarrow> McAnalysis" where
  "ensureConcatEssentials a histIndex =
     (let a1 = (if concatModes a histIndex = None
                then a\<lparr>concatModes := (concatModes a)(histIndex \<mapsto> [])\<rparr> else a);
          a2 = (if concatHistograms a1 histIndex = None
                then a1\<lparr>concatHistograms := (concatHistograms a1)(histIndex \<mapsto> Map.empty)\<rparr>
                else a1)
      in if concatBinEdges a2 histIndex = None
         then a2\<lparr>concatBinEdges := (concatBinEdges a2)(histIndex \<mapsto> Map.empty)\<rparr> else a2)"

text \<open>A lookup that raises \<^verbatim>\<open>KeyError\<close> for a missing key.\<close>

definition getitem :: "('k \<rightharpoonup> 'v) \<Rightarrow> 'k \<Rightarrow> error + 'v" where
  "getitem d k = (case d k of None \<Rightarrow> Inl KeyError | Some v \<Rightarrow> Inr v)"

text \<open>
  The inner loop of \<^verbatim>\<open>histAndLoadReps\<close> over the histogram ranges, for one repetition
  and its histogrammer.
\<close>

fun histAndLoadReps_ranges ::
  "histogrammer \<Rightarrow> int \<Rightarrow> (int \<times> histRange) list \<Rightarrow> McAnalysis \<Rightarrow> error + McAnalysis" where
  "histAndLoadReps_ranges mh rep [] a = Inr a"
| "histAndLoadReps_ranges mh rep ((histIndex, hr) # rest) a =
     (let a1 = ensureConcatEssentials a histIndex
      in case getitem (mh_modes mh) histIndex of
           Inl e \<Rightarrow> Inl e
         | Inr modes \<Rightarrow>
             (let a2 = a1\<lparr>concatModes := (concatModes a1)
                          (histIndex \<mapsto> dict_set (the (concatModes a1 histIndex)) rep modes)\<rparr>
              in case getitem (mh_histDict mh) histIndex of
                   Inl e \<Rightarrow> Inl e
                 | Inr h \<Rightarrow>
                     (let a3 = a2\<lparr>concatHistograms := (concatHistograms a2)
                                  (histIndex \<mapsto> (the (concatHistograms a2 histIndex))(rep \<mapsto> h))\<rparr>
                      in case getitem (mh_binEdges mh) histIndex of
                           Inl e \<Rightarrow> Inl e
                         | Inr be \<Rightarrow>
                             histAndLoadReps_ranges mh rep rest
                               (a3\<lparr>concatBinEdges := (concatBinEdges a3)
                                     (histIndex \<mapsto>
                                        (the (concatBinEdges a3 histIndex))(rep \<mapsto> be))\<rparr>))))"

text \<open>
  \<^verbatim>\<open>histAndLoadReps\<close>, on the repetitions still to load. Each one is loaded into a
  fresh core, histogrammed, and its optimisation values and scaled intensity
  \<^verbatim>\<open>modelI * x0[0] + x0[1]\<close> are tabulated.
\<close>

fun histAndLoadReps_loop ::
  "env \<Rightarrow> henv \<Rightarrow> string \<Rightarrow> bool \<Rightarrow> int list \<Rightarrow> McAnalysis \<Rightarrow> error + McAnalysis" where
  "histAndLoadReps_loop E H inputFile store [] a = Inr a"
| "histAndLoadReps_loop E H inputFile store (rep # rest) a =
     (case McCore_init E (an_measData a) None None (Some inputFile) (Some rep) of
        Inl e \<Rightarrow> Inl e
      | Inr core \<Rightarrow>
          (case McModelHistogrammer H (model core) (histRanges a) of
             Inl e \<Rightarrow> Inl e
           | Inr mh \<Rightarrow>
               (case (if store then mh_store H mh inputFile rep else None) of
                  Some e \<Rightarrow> Inl e
                | None \<Rightarrow>
                    (let a1 = a\<lparr>concatOpts := dict_set (concatOpts a) rep
                                 \<lparr>scaling = fst (x0 (opt core)), background = snd (x0 (opt core)),
                                  opts_gof = gof (opt core), opts_accepted = accepted (opt core),
                                  opts_step = step (opt core)\<rparr>\<rparr>;
                         a2 = a1\<lparr>concatI := dict_set (concatI a1) rep
                                 (map (\<lambda>x. x * fst (x0 (opt core)) + snd (x0 (opt core)))
                                    (modelI (opt core)))\<rparr>
                     in case histAndLoadReps_ranges mh rep (histRanges a2) a2 of
                          Inl e \<Rightarrow> Inl e
                        | Inr a3 \<Rightarrow> histAndLoadReps_loop E H inputFile store rest a3))))"

definition histAndLoadReps :: "env \<Rightarrow> henv \<Rightarrow> McAnalysis \<Rightarrow> string \<Rightarrow> bool \<Rightarrow> error + McAnalysis" where
  "histAndLoadReps E H a inputFile store =
     histAndLoadReps_loop E H inputFile store (repetitionList a) a"

text \<open>
  \<^verbatim>\<open>averageI\<close>: the vectors of \<open>concatI\<close> as the rows of a matrix, mean and standard
  deviation (numpy's default, \<open>ddof = 0\<close>) down each column. With no row the two
  statistics are scalars, of which pandas makes no DataFrame.
\<close>

record averagedI =
  modelIMean :: "real option list"
  modelIStd :: "real option list"

definition averageI :: "McAnalysis \<Rightarrow> error + averagedI" where
  "averageI a =
     (case np_array2 (map snd (concatI a)) of
        Inl e \<Rightarrow> Inl e
      | Inr rows \<Rightarrow>
          (if rows = [] then Inl ValueError
           else Inr \<lparr>modelIMean = map np_mean (columns rows),
                     modelIStd = map (np_std 0) (columns rows)\<rparr>))"

text \<open>
  \<^verbatim>\<open>averageMode\<close>: the table of the modes of one range, one row per repetition, gives
  per mode the mean and the standard deviation with \<open>ddof = 1\<close>; \<^verbatim>\<open>stack\<close> makes one
  entry per pair of mode and statistic and leaves out those that are \<open>nan\<close>.
\<close>

definition averageMode :: "McAnalysis \<Rightarrow> int \<Rightarrow> error + (string \<times> string \<rightharpoonup> real)" where
  "averageMode a histIndex =
     (case getitem (concatModes a) histIndex of
        Inl e \<Rightarrow> Inl e
      | Inr df \<Rightarrow>
          Inr (\<lambda>(k, stat).
                 if k \<in> set modeKeys then
                   (if stat = ''valMean'' then pd_mean (map (\<lambda>(r, row). row k) df)
                    else if stat = ''valStd'' then pd_std 1 (map (\<lambda>(r, row). row k) df)
                    else None)
                 else None))"

text \<open>
  \<^verbatim>\<open>averageHistogram\<close>. The columns \<open>Obs\<close>, \<open>cdfMean\<close> and \<open>cdfStd\<close> of the
  DataFrame are never assigned. The check of the bin edges compares the entries of the
  first two repetitions, element by element; numpy raises for two vectors whose lengths
  differ. A column assigned to a DataFrame with rows must have their number; assigned
  to an empty one it makes the rows, and the columns that were there hold \<open>nan\<close>.
\<close>

record averagedHistogram =
  xMean :: "real list"
  xWidth :: "real list"
  yMean :: "real option list"
  yStd :: "real option list"

fun mapM_err :: "('a \<Rightarrow> error + 'b) \<Rightarrow> 'a list \<Rightarrow> error + 'b list" where
  "mapM_err f [] = Inr []"
| "mapM_err f (x # xs) =
     (case f x of
        Inl e \<Rightarrow> Inl e
      | Inr y \<Rightarrow> (case mapM_err f xs of Inl e \<Rightarrow> Inl e | Inr ys \<Rightarrow> Inr (y # ys)))"

definition check_binEdges :: "McAnalysis \<Rightarrow> int \<Rightarrow> error + unit" where
  "check_binEdges a histIndex =
     (if length (repetitionList a) > 1 then
        (case getitem (concatBinEdges a) histIndex of
           Inl e \<Rightarrow> Inl e
         | Inr be0 \<Rightarrow>
             (case getitem be0 (repetitionList a ! 0) of
                Inl e \<Rightarrow> Inl e
              | Inr e0 \<Rightarrow>
                  (case getitem (concatBinEdges a) histIndex of
                     Inl e \<Rightarrow> Inl e
                   | Inr be1 \<Rightarrow>
                       (case getitem be1 (repetitionList a ! 1) of
                          Inl e \<Rightarrow> Inl e
                        | Inr e1 \<Rightarrow>
                            (case np_binop (=) e0 e1 of
                               Inl e \<Rightarrow> Inl e
                             | Inr bs \<Rightarrow>
                                 (if list_all (\<lambda>b. b) bs then Inr ()
                                  else Inl (AssertionError [])))))))
      else Inr ())"

definition averageHistogram :: "McAnalysis \<Rightarrow> int \<Rightarrow> error + averagedHistogram" where
  "averageHistogram a histIndex =
     (case mapM_err (\<lambda>rep.
               case getitem (concatHistograms a) histIndex of
                 Inl e \<Rightarrow> Inl e
               | Inr d \<Rightarrow> getitem d rep) (repetitionList a) of
        Inl e \<Rightarrow> Inl e
      | Inr rows \<Rightarrow>
          (case np_array2 rows of
             Inl e \<Rightarrow> Inl e
           | Inr hists \<Rightarrow>
               (let ym = map np_mean (columns hists);
                    ys = map (np_std (if length hists > 1 then 1 else 0)) (columns hists)
                in case check_binEdges a histIndex of
                     Inl e \<Rightarrow> Inl e
                   | Inr u \<Rightarrow>
                       (case getitem (concatBinEdges a) histIndex of
                          Inl e \<Rightarrow> Inl e
                        | Inr be \<Rightarrow>
                            (case repetitionList a of
                               [] \<Rightarrow> Inl IndexError
                             | r0 # rs \<Rightarrow>
                                 (case getitem be r0 of
                                    Inl e \<Rightarrow> Inl e
                                  | Inr binEdges \<Rightarrow>
                                      (let xw = np_diff binEdges;
                                           xm = map2 (\<lambda>l w. l + 0.5 * w) (butlast binEdges) xw
                                       in if ym = [] then
                                            Inr \<lparr>xMean = xm, xWidth = xw,
                                                 yMean = replicate (length xw) None,
                                                 yStd = replicate (length xw) None\<rparr>
                                          else if length xw \<noteq> length ym then Inl ValueError
                                          else Inr \<lparr>xMean = xm, xWidth = xw,
                                                    yMean = ym, yStd = ys\<rparr>)))))))"

text \<open>
  \<^verbatim>\<open>getNRep\<close> empties the list of repetitions and fills it from the names in the
  group of the stored models. Which names h5py returns for a file, or which exception
  opening the file or reading the group raises, is taken as given: the path of the
  group starts with \<^verbatim>\<open>nxsEntryPoint\<close>, an attribute that no class of these sources
  defines. \<^verbatim>\<open>'repetition' in key\<close> is the substring test; \<^verbatim>\<open>strip\<close> removes from
  both ends of the name the characters of its argument; Python's \<^verbatim>\<open>int\<close> of a string
  is taken as given too, \<open>None\<close> where it raises \<^verbatim>\<open>ValueError\<close>.
\<close>

record nenv =
  model_keys :: "string \<Rightarrow> error + string list"
  py_int :: "string \<Rightarrow> int option"

fun py_contains :: "string \<Rightarrow> string \<Rightarrow> bool" where
  "py_contains sub [] = (sub = [])"
| "py_contains sub (c # s) = (take (length sub) (c # s) = sub \<or> py_contains sub s)"

definition py_strip :: "string \<Rightarrow> string \<Rightarrow> string" where
  "py_strip chars s =
     rev (dropWhile (\<lambda>c. c \<in> set chars) (rev (dropWhile (\<lambda>c. c \<in> set chars) s)))"

fun getNRep_loop :: "nenv \<Rightarrow> string list \<Rightarrow> McAnalysis \<Rightarrow> error + McAnalysis" where
  "getNRep_loop N [] a = Inr a"
| "getNRep_loop N (key # keys) a =
     (if py_contains ''repetition'' key then
        (case py_int N (py_strip ''repetition'' key) of
           None \<Rightarrow> Inl ValueError
         | Some n \<Rightarrow> getNRep_loop N keys (a\<lparr>repetitionList := repetitionList a @ [n]\<rparr>))
      else getNRep_loop N keys a)"

definition getNRep :: "nenv \<Rightarrow> McAnalysis \<Rightarrow> string \<Rightarrow> error + McAnalysis" where
  "getNRep N a inputFile =
     (case model_keys N inputFile of
        Inl e \<Rightarrow> Inl e
      | Inr keys \<Rightarrow> getNRep_loop N keys (a\<lparr>repetitionList := []\<rparr>))"

subsection \<open>McHDF\<close>

text \<open>
  An HDF5 file is a tree of groups and datasets, here a map from the absolute path (the
  list of names from the root) to what is there; the root group is the empty path. The
  paths and keys are taken as already split at \<open>/\<close>. A dataset is an array with its
  dtype and shape; a single value is an array of shape \<open>()\<close>.
\<close>

datatype scalar = SInt int | SReal real | SStr string

record ndarray =
  dtype :: string
  shape :: "nat list"
  items :: "scalar list"

datatype pyvalue =
    PNone
  | PTuple "scalar list"
  | PList "scalar list"
  | PArray ndarray
  | PScalar scalar

datatype h5node = H5Group | H5Dataset ndarray

type_synonym h5file = "string list \<rightharpoonup> h5node"

type_synonym filesystem = "string \<rightharpoonup> h5file"

text \<open>
  \<^verbatim>\<open>_HDFstoreKV\<close> opens the file with \<^verbatim>\<open>h5py.File(filename)\<close>, without a mode. The
  mode is then the default of the installed h5py: \<^verbatim>\<open>'a'\<close> before version 3 (read and
  write, the file is created if it is not there), \<^verbatim>\<open>'r'\<close> from version 3 on (read
  only, the file must be there).
\<close>

datatype h5mode = ReadOnly | Append

text \<open>
  What \<^verbatim>\<open>_HDFstoreKV\<close> takes from numpy and h5py: the array made of a tuple or list,
  the dataset made of a single value, the conversion of an array of strings to h5py's
  variable-length string type, whether one dtype can be cast to another, and the default
  mode of \<^verbatim>\<open>h5py.File\<close>.
\<close>

record hdf_env =
  np_array :: "scalar list \<Rightarrow> ndarray"
  scalar_dataset :: "scalar \<Rightarrow> ndarray"
  astype_vlen_str :: "ndarray \<Rightarrow> ndarray"
  can_cast :: "string \<Rightarrow> string \<Rightarrow> bool"
  default_mode :: h5mode

text \<open>
  \<^verbatim>\<open>create_group\<close> makes the group and the missing groups on the way to it, and
  fails where the way leads through a dataset. \<open>pre\<close> is the part of the path already
  walked.
\<close>

fun create_group :: "h5file \<Rightarrow> string list \<Rightarrow> string list \<Rightarrow> error + h5file" where
  "create_group h pre [] = Inr h"
| "create_group h pre (n # rest) =
     (case h (pre @ [n]) of
        None \<Rightarrow> create_group (h(pre @ [n] \<mapsto> H5Group)) (pre @ [n]) rest
      | Some H5Group \<Rightarrow> create_group h (pre @ [n]) rest
      | Some (H5Dataset d) \<Rightarrow> Inl ValueError)"

text \<open>
  In what follows \<open>w\<close> says whether the file is open for writing. \<^verbatim>\<open>require_group\<close>
  returns the group that is there and creates the one that is not, which a file that is
  open for reading only refuses.
\<close>

definition require_group :: "bool \<Rightarrow> h5file \<Rightarrow> string list \<Rightarrow> error + h5file" where
  "require_group w h path =
     (case h path of
        None \<Rightarrow> (if w then create_group h [] path else Inl ValueError)
      | Some H5Group \<Rightarrow> Inr h
      | Some (H5Dataset d) \<Rightarrow> Inl TypeError)"

text \<open>
  \<^verbatim>\<open>require_dataset\<close> creates the dataset when the name is free; a dataset that is there
  is returned as it is (its content is not written) if shape and dtype fit.
\<close>

definition require_dataset ::
  "bool \<Rightarrow> hdf_env \<Rightarrow> h5file \<Rightarrow> string list \<Rightarrow> ndarray \<Rightarrow> error + h5file" where
  "require_dataset w E h p arr =
     (case h p of
        None \<Rightarrow> (if w then Inr (h(p \<mapsto> H5Dataset arr)) else Inl ValueError)
      | Some H5Group \<Rightarrow> Inl TypeError
      | Some (H5Dataset old) \<Rightarrow>
          (if shape arr \<noteq> shape old then Inl TypeError
           else if \<not> can_cast E (dtype arr) (dtype old) then Inl TypeError
           else Inr h))"

text \<open>
  The two branches that store: an array goes through \<^verbatim>\<open>require_dataset\<close>; any other
  value makes a new dataset, or is written over the whole of the dataset that is there
  (\<^verbatim>\<open>dset[()] = value\<close>; a value that h5py cannot convert is not modelled). Writing
  to a file that is open for reading only raises \<^verbatim>\<open>OSError\<close>, of which
  \<^verbatim>\<open>IOError\<close> is another name.
\<close>

definition store_array ::
  "bool \<Rightarrow> hdf_env \<Rightarrow> h5file \<Rightarrow> string list \<Rightarrow> ndarray \<Rightarrow> h5file \<times> error option" where
  "store_array w E h p arr =
     (let arr1 = (if dtype arr = ''<U6'' then astype_vlen_str E arr else arr)
      in case require_dataset w E h p arr1 of
           Inl e \<Rightarrow> (h, Some e)
         | Inr h' \<Rightarrow> (h', None))"

definition store_scalar ::
  "bool \<Rightarrow> hdf_env \<Rightarrow> h5file \<Rightarrow> string list \<Rightarrow> scalar \<Rightarrow> h5file \<times> error option" where
  "store_scalar w E h p v =
     (case h p of
        None \<Rightarrow>
          (if w then (h(p \<mapsto> H5Dataset (scalar_dataset E v)), None) else (h, Some ValueError))
      | Some H5Group \<Rightarrow> (h, Some TypeError)
      | Some (H5Dataset old) \<Rightarrow>
          (if w then
             (h(p \<mapsto> H5Dataset (old\<lparr>items := replicate (length (items old)) v\<rparr>)), None)
           else (h, Some IOError)))"

text \<open>
  The body of the \<^verbatim>\<open>with\<close> block of \<^verbatim>\<open>_HDFstoreKV\<close> on the open file: the new
  content of the file and the exception raised, if any. A tuple or a list is stored as
  the array made of it; \<^verbatim>\<open>None\<close> is skipped.
\<close>

definition storeKV_body ::
  "bool \<Rightarrow> hdf_env \<Rightarrow> h5file \<Rightarrow> string list \<Rightarrow> string \<Rightarrow> pyvalue \<Rightarrow> h5file \<times> error option" where
  "storeKV_body w E h0 path key val =
     (case require_group w h0 path of
        Inl e \<Rightarrow> (h0, Some e)
      | Inr h \<Rightarrow>
          (case val of
             PTuple xs \<Rightarrow> store_array w E h (path @ [key]) (np_array E xs)
           | PList xs \<Rightarrow> store_array w E h (path @ [key]) (np_array E xs)
           | PArray arr \<Rightarrow> store_array w E h (path @ [key]) arr
           | PScalar v \<Rightarrow> store_scalar w E h (path @ [key]) v
           | PNone \<Rightarrow> (h, None)))"

text \<open>
  \<^verbatim>\<open>_HDFstoreKV\<close>. In the mode \<^verbatim>\<open>'a'\<close> a file that is not there is created, with
  its root group; in the mode \<^verbatim>\<open>'r'\<close> opening it raises \<^verbatim>\<open>FileNotFoundError\<close>
  and nothing else happens. What the body did is on disk when the block is left, with
  or without an exception.
\<close>

definition HDFstoreKV ::
  "hdf_env \<Rightarrow> filesystem \<Rightarrow> string option \<Rightarrow> string list option \<Rightarrow> string option \<Rightarrow> pyvalue
     \<Rightarrow> filesystem \<times> error option" where
  "HDFstoreKV E fs filename path key val =
     (case filename of
        None \<Rightarrow> (fs, Some (AssertionError ''filename (output filename) cannot be empty''))
      | Some f \<Rightarrow>
          (case path of
             None \<Rightarrow> (fs, Some (AssertionError ''HDF5 path cannot be empty''))
           | Some p \<Rightarrow>
               (case key of
                  None \<Rightarrow> (fs, Some (AssertionError ''key cannot be empty''))
                | Some k \<Rightarrow>
                    (case default_mode E of
                       Append \<Rightarrow>
                         (let h0 = (case fs f of None \<Rightarrow> [[] \<mapsto> H5Group] | Some h \<Rightarrow> h);
                              (h1, err) = storeKV_body True E h0 p k val
                          in (fs(f \<mapsto> h1), err))
                     | ReadOnly \<Rightarrow>
                         (case fs f of
                            None \<Rightarrow> (fs, Some FileNotFoundError)
                          | Some h0 \<Rightarrow>
                              (let (h1, err) = storeKV_body False E h0 p k val
                               in (fs(f \<mapsto> h1), err)))))))"

subsection \<open>Notions used to state the properties\<close>

text \<open>\<open>n\<close> calls of \<^verbatim>\<open>iterate\<close> in a row, stopping at the first exception.\<close>

fun iterN :: "nat \<Rightarrow> McCore \<Rightarrow> error + McCore" where
  "iterN 0 c = Inr c"
| "iterN (Suc n) c = (case iterate c of Inl e \<Rightarrow> Inl e | Inr c' \<Rightarrow> iterN n c')"

text \<open>
  The trial intensity written point by point: the current \<open>modelI\<close> plus the difference
  of the two kernel results \<open>Fsq/V_shell\<close>, divided by the number of contributions.
\<close>

definition trialI :: "McCore \<Rightarrow> Fq \<Rightarrow> Fq \<Rightarrow> real list" where
  "trialI c rold rpick =
     map (\<lambda>k. modelI (opt c) ! k
            + (Fsq rpick ! k / V_shell rpick - Fsq rold ! k / V_shell rold)
              / real_of_int (nContrib (model c)))
       [0 ..< length (modelI (opt c))]"

text \<open>The entry \<open>valStd\<close> of a mode among the averaged modes of a range.\<close>

definition valStd :: "McAnalysis \<Rightarrow> int \<Rightarrow> string \<Rightarrow> error + real option" where
  "valStd a histIndex k =
     (case averageMode a histIndex of Inl e \<Rightarrow> Inl e | Inr m \<Rightarrow> Inr (m (k, ''valStd'')))"

text \<open>The heights of bin \<open>k\<close> of a range in the histograms of the repetitions.\<close>

definition heights :: "McAnalysis \<Rightarrow> int \<Rightarrow> nat \<Rightarrow> real list" where
  "heights a histIndex k =
     map (\<lambda>r. the (the (concatHistograms a histIndex) r) ! k) (repetitionList a)"

text \<open>
  The scaled intensity of a stored repetition: scaling times model intensity plus
  background, of the core reloaded from the file (the empty vector if it cannot be
  loaded).
\<close>

definition scaled_I :: "env \<Rightarrow> measData \<Rightarrow> string \<Rightarrow> int \<Rightarrow> real list" where
  "scaled_I E md f r =
     (case McCore_init E md None None (Some f) (Some r) of
        Inl e \<Rightarrow> []
      | Inr core \<Rightarrow> map (\<lambda>m. fst (x0 (opt core)) * m + snd (x0 (opt core))) (modelI (opt core)))"

text \<open>
  What a file holds; a file that is not there counts as holding what a new file would,
  the root group alone.
\<close>

definition file_content :: "filesystem \<Rightarrow> string \<Rightarrow> h5file" where
  "file_content fs f = (case fs f of None \<Rightarrow> [[] \<mapsto> H5Group] | Some h \<Rightarrow> h)"

subsection \<open>A small concrete run\<close>

text \<open>
  A toy kernel on a grid of two Q values, \<open>Fsq = [2 r, 4 r]\<close> and \<open>V_shell = 2\<close> for the
  parameter \<open>radius = r\<close>, and a toy solver that returns the scaling 1, the background 0
  and the sum of squared residuals, and fails on a constant model intensity (for which
  scaling and background cannot be told apart).
\<close>

definition ex_kernel :: kernel_fn where
  "ex_kernel p =
     (case p ''radius'' of
        None \<Rightarrow> \<lparr>Fq_F = [0, 0], Fsq = [0, 0], R_eff = 0, V_shell = 2, V_ratio = 1\<rparr>
      | Some r \<Rightarrow> \<lparr>Fq_F = [r, r], Fsq = [2 * r, 4 * r], R_eff = r, V_shell = 2, V_ratio = 1\<rparr>)"

definition ex_match :: "real list \<Rightarrow> real list \<Rightarrow> osb_match" where
  "ex_match Iv Sv td guess =
     (if td = replicate (length td) (hd td) then Inl IllConditioned
      else Inr ((1, 0), sum_list (map2 (\<lambda>a b. (a - b) * (a - b)) Iv td)))"

definition ex_measData :: measData where
  "ex_measData = \<lparr>Q = [1, 2], I = [3, 6], ISigma = [1, 1]\<rparr>"

definition ex_row :: "real \<Rightarrow> params" where
  "ex_row r = [''radius'' \<mapsto> r]"

definition ex_draws :: "nat \<Rightarrow> params" where
  "ex_draws n = (if n = 0 then ex_row 2 else if n = 1 then ex_row 5 else ex_row 0)"

definition ex_model :: McModel where
  "ex_model = \<lparr>parameterSet = [0 \<mapsto> ex_row 1, 1 \<mapsto> ex_row 1], volumes = [2, 2], nContrib = 2,
     staticParameters = [''sld'' \<mapsto> 1], pickParameters = Map.empty,
     func = (\<lambda>q. ex_kernel), kernel = ex_kernel, draws = ex_draws\<rparr>"

definition ex_opt :: McOpt where
  "ex_opt = \<lparr>modelI = [1, 2], x0 = (1, 0), gof = 20, testModelI = [], testX0 = (1, 0),
     testModelV = 0, step = 0, accepted = 0, maxIter = 3, maxAccept = 10, convCrit = 1,
     repetition = 0\<rparr>"

definition ex_core :: McCore where
  "ex_core = \<lparr>core_measData = ex_measData, model = ex_model, opt = ex_opt,
     OSB = ex_match [3, 6] [1, 1]\<rparr>"

text \<open>
  The state of that run after two accepted steps, where the third draw gives exactly the
  current goodness of fit; and a run with one contribution whose draw makes the trial
  intensity constant, on which the toy solver fails.
\<close>

definition ex_core_tie :: McCore where
  "ex_core_tie = ex_core\<lparr>
     model := ex_model\<lparr>parameterSet := [0 \<mapsto> ex_row 2, 1 \<mapsto> ex_row 5],
                       draws := (\<lambda>n. ex_row 0)\<rparr>,
     opt := ex_opt\<lparr>modelI := [7 / 2, 7], gof := 5 / 4, step := 2, accepted := 2\<rparr>\<rparr>"

definition ex_core_ill :: McCore where
  "ex_core_ill = ex_core\<lparr>
     model := ex_model\<lparr>parameterSet := [0 \<mapsto> ex_row 1], volumes := [2], nContrib := 1,
                       draws := (\<lambda>n. ex_row 0)\<rparr>\<rparr>"

text \<open>
  A toy environment: one result file, whose stored repetition 0 agrees with what the
  core recomputes and whose other repetitions store a different goodness of fit; and a
  relative test standing in for numpy's comparison.
\<close>

definition ex_approx :: "real \<Rightarrow> real \<Rightarrow> nat \<Rightarrow> bool" where
  "ex_approx a d n \<longleftrightarrow> \<bar>a - d\<bar> * 10 ^ n \<le> 5 * \<bar>d\<bar>"

definition ex_stored_opt :: "int \<Rightarrow> McOpt" where
  "ex_stored_opt r = (if r = 0 then ex_opt\<lparr>step := 3, accepted := 2\<rparr>
                      else ex_opt\<lparr>gof := 21, step := 3, accepted := 2, repetition := r\<rparr>)"

definition ex_env :: env where
  "ex_env = \<lparr>optimizeScalingAndBackground = ex_match,
     McModel_load = (\<lambda>f r. if f = ''run.nxs'' then Inr ex_model else Inl IOError),
     McOpt_load = (\<lambda>f r. if f = ''run.nxs'' then Inr (ex_stored_opt r) else Inl IOError),
     approx_equal = ex_approx\<rparr>"

text \<open>
  Tables of an aggregator for one histogram range with two bins: three repetitions, of
  which the third has other bin edges than the first two; and the same with the first
  repetition alone.
\<close>

definition ex_modes :: "real \<Rightarrow> (string \<rightharpoonup> real)" where
  "ex_modes m = [''totalValue'' \<mapsto> 1, ''mean'' \<mapsto> m, ''variance'' \<mapsto> 1, ''skew'' \<mapsto> 0,
                 ''kurtosis'' \<mapsto> 3]"

definition ex_range :: histRange where
  "ex_range = \<lparr>parameter = ''radius'', rangeMin = 0, rangeMax = 2, nBin = 2,
                binScale = ''lin'', binWeighting = ''vol''\<rparr>"

definition ex_an3 :: McAnalysis where
  "ex_an3 = \<lparr>an_measData = ex_measData, histRanges = [(0, ex_range)],
     repetitionList = [0, 1, 2], concatOpts = [], concatI = [],
     concatModes = [0 \<mapsto> [(0, ex_modes 5), (1, ex_modes 7), (2, ex_modes 6)]],
     concatHistograms = [0 \<mapsto> [0 \<mapsto> [1, 3], 1 \<mapsto> [3, 5], 2 \<mapsto> [2, 4]]],
     concatBinEdges = [0 \<mapsto> [0 \<mapsto> [0, 1, 2], 1 \<mapsto> [0, 1, 2], 2 \<mapsto> [0, 5, 10]]]\<rparr>"

definition ex_an1 :: McAnalysis where
  "ex_an1 = ex_an3\<lparr>repetitionList := [0], concatModes := [0 \<mapsto> [(0, ex_modes 5)]],
     concatHistograms := [0 \<mapsto> [0 \<mapsto> [1, 3]]],
     concatBinEdges := [0 \<mapsto> [0 \<mapsto> [0, 1, 2]]]\<rparr>"

text \<open>
  A result file with two repetitions of different contributions, a toy solver that
  always finds the scaling 2 and the background 1, and a histogrammer with fixed output.
\<close>

definition ex_match2 :: "real list \<Rightarrow> real list \<Rightarrow> osb_match" where
  "ex_match2 Iv Sv td guess =
     Inr ((2, 1), sum_list (map2 (\<lambda>a b. (a - (2 * b + 1)) * (a - (2 * b + 1))) Iv td))"

definition ex_env_an :: env where
  "ex_env_an = \<lparr>optimizeScalingAndBackground = ex_match2,
     McModel_load = (\<lambda>f r. Inr (ex_model\<lparr>parameterSet :=
                        [0 \<mapsto> ex_row (1 + real_of_int r), 1 \<mapsto> ex_row (1 + real_of_int r)]\<rparr>)),
     McOpt_load = (\<lambda>f r. Inr (ex_opt\<lparr>x0 := (2, 1), gof := (if r = 0 then 1 else 13),
                                       repetition := r\<rparr>)),
     approx_equal = ex_approx\<rparr>"

definition ex_henv :: henv where
  "ex_henv = \<lparr>McModelHistogrammer =
       (\<lambda>m hr. Inr \<lparr>mh_modes = [0 \<mapsto> ex_modes 5], mh_histDict = [0 \<mapsto> [1, 3]],
                     mh_binEdges = [0 \<mapsto> [0, 1, 2]]\<rparr>),
     mh_store = (\<lambda>mh f r. None)\<rparr>"

definition ex_an0 :: McAnalysis where
  "ex_an0 = \<lparr>an_measData = ex_measData, histRanges = [(0, ex_range)],
     repetitionList = [0, 1], concatOpts = [], concatI = [],
     concatModes = Map.empty, concatHistograms = Map.empty, concatBinEdges = Map.empty\<rparr>"

text \<open>
  Two result files that hold the same repetition 0, the first one also a repetition 1.
  \<open>ex_an0\<close> is the first aggregator of a process after \<^verbatim>\<open>getNRep\<close> on the first
  file. \<open>ex_second a\<close> is a second aggregator of the process at its call of
  \<^verbatim>\<open>getNRep\<close>, where \<open>a\<close> is the state the first one was left in: the constructor
  has set \<^verbatim>\<open>_concatOpts\<close>, \<^verbatim>\<open>_histRanges\<close> and \<^verbatim>\<open>_measData\<close> on the new
  object, and the dicts of the class are the ones the first aggregator wrote to.
\<close>

definition ex_nenv :: nenv where
  "ex_nenv = \<lparr>model_keys = (\<lambda>f. if f = ''run.nxs'' then Inr [''repetition0'', ''repetition1'']
                               else if f = ''single.nxs'' then Inr [''repetition0'']
                               else Inl IOError),
     py_int = (\<lambda>s. if s = ''0'' then Some 0 else if s = ''1'' then Some 1 else None)\<rparr>"

definition ex_second :: "McAnalysis \<Rightarrow> McAnalysis" where
  "ex_second a = a\<lparr>concatOpts := [], histRanges := [(0, ex_range)], an_measData := ex_measData\<rparr>"

text \<open>A result file with one group and one stored value.\<close>

definition ex_hdf_env :: hdf_env where
  "ex_hdf_env = \<lparr>np_array = (\<lambda>xs. \<lparr>dtype = ''float64'', shape = [length xs], items = xs\<rparr>),
     scalar_dataset = (\<lambda>v. \<lparr>dtype = ''float64'', shape = [], items = [v]\<rparr>),
     astype_vlen_str = (\<lambda>a. a\<lparr>dtype := ''O''\<rparr>), can_cast = (\<lambda>a b. a = b),
     default_mode = Append\<rparr>"

definition ex_h5 :: h5file where
  "ex_h5 = [[] \<mapsto> H5Group, [''entry1''] \<mapsto> H5Group,
            [''entry1'', ''gof''] \<mapsto>
              H5Dataset \<lparr>dtype = ''float64'', shape = [], items = [SReal 2]\<rparr>]"

definition ex_fs :: filesystem where
  "ex_fs = [''out.nxs'' \<mapsto> ex_h5]"

section \<open>Properties of the Monte Carlo core\<close>

lemma evaluate_Inr:
  "evaluate c td = Inr (g, c') \<Longrightarrow>
     \<exists>tx0. OSB c (case td of None \<Rightarrow> modelI (opt c) | Some t \<Rightarrow> t) (x0 (opt c)) = Inr (tx0, g)
       \<and> c' = c\<lparr>opt := (opt c)\<lparr>testX0 := tx0\<rparr>\<rparr>"
  by (auto simp: evaluate_def Let_def split: sum.splits prod.splits)

lemma reEvaluate_Inr:
  assumes "reEvaluate c = Inr (g, c')"
  shows "model c' = model c \<and> OSB c' = OSB c \<and> core_measData c' = core_measData c
     \<and> modelI (opt c') = modelI (opt c) \<and> x0 (opt c') = x0 (opt c) \<and> gof (opt c') = gof (opt c)
     \<and> step (opt c') = step (opt c) \<and> accepted (opt c') = accepted (opt c)
     \<and> maxIter (opt c') = maxIter (opt c) \<and> maxAccept (opt c') = maxAccept (opt c)
     \<and> convCrit (opt c') = convCrit (opt c) \<and> repetition (opt c') = repetition (opt c)"
  using assms
  by (auto simp: reEvaluate_def Let_def split: sum.splits prod.splits dest!: evaluate_Inr)

lemma np_binop_same_length:
  assumes "length a = length b"
  shows "np_binop f a b = Inr (map (\<lambda>k. f (a ! k) (b ! k)) [0 ..< length a])"
proof -
  have "map2 f a b = map (\<lambda>k. f (a ! k) (b ! k)) [0 ..< length a]"
    using assms by (intro nth_equalityI) simp_all
  then show ?thesis
    using assms by (simp add: np_binop_def)
qed

lemma reEvaluate_eq:
  assumes n: "nContrib (model c) \<noteq> 0"
    and row: "parameterSet (model c) (step (opt c) mod nContrib (model c)) = Some row"
    and lo: "length (Fsq (kernel (model c) (staticParameters (model c) ++ row)))
               = length (modelI (opt c))"
    and lp: "length (Fsq (kernel (model c) (staticParameters (model c) ++ pickParameters (model c))))
               = length (modelI (opt c))"
  shows "reEvaluate c =
     (let rold = kernel (model c) (staticParameters (model c) ++ row);
          rpick = kernel (model c) (staticParameters (model c) ++ pickParameters (model c));
          tI = trialI c rold rpick
      in case OSB c tI (x0 (opt c)) of
           Inl e \<Rightarrow> Inl e
         | Inr (tx0, g) \<Rightarrow>
             Inr (g, c\<lparr>opt := (opt c)\<lparr>testModelI := tI, testModelV := V_shell rpick,
                                       testX0 := tx0\<rparr>\<rparr>))"
proof -
  define rold where "rold = kernel (model c) (staticParameters (model c) ++ row)"
  define rpick where "rpick = kernel (model c) (staticParameters (model c) ++ pickParameters (model c))"
  define K where "K = length (modelI (opt c))"
  have lens: "length (Fsq rold) = K" "length (Fsq rpick) = K"
    using lo lp by (simp_all add: rold_def rpick_def K_def)
  have old: "calcModelIV c row = (map (\<lambda>x. x / V_shell rold) (Fsq rold), V_shell rold)"
    by (simp add: calcModelIV_def rold_def Let_def)
  have pk: "calcModelIV c (pickParameters (model c))
              = (map (\<lambda>x. x / V_shell rpick) (Fsq rpick), V_shell rpick)"
    by (simp add: calcModelIV_def rpick_def Let_def)
  define dI where
    "dI = map (\<lambda>k. Fsq rpick ! k / V_shell rpick - Fsq rold ! k / V_shell rold) [0 ..< K]"
  have d: "np_binop (-) (map (\<lambda>x. x / V_shell rpick) (Fsq rpick))
             (map (\<lambda>x. x / V_shell rold) (Fsq rold)) = Inr dI"
    using lens by (simp add: np_binop_same_length dI_def)
  have "length dI = K"
    by (simp add: dI_def)
  then have t: "np_binop (+) (modelI (opt c))
             (map (\<lambda>x. x / real_of_int (nContrib (model c))) dI) = Inr (trialI c rold rpick)"
    by (simp add: np_binop_same_length K_def trialI_def dI_def)
  have "reEvaluate c =
      (case OSB c (trialI c rold rpick) (x0 (opt c)) of
           Inl e \<Rightarrow> Inl e
         | Inr (tx0, g) \<Rightarrow>
             Inr (g, c\<lparr>opt := (opt c)\<lparr>testModelI := trialI c rold rpick,
                    testModelV := V_shell rpick, testX0 := tx0\<rparr>\<rparr>))"
    using n row
    by (simp add: reEvaluate_def contribIndex_def loc_def old pk d t evaluate_def
        split: sum.splits prod.splits)
  then show ?thesis
    unfolding rold_def rpick_def Let_def .
qed

lemma reEvaluate_volumes:
  "reEvaluate (c\<lparr>model := (model c)\<lparr>volumes := v\<rparr>\<rparr>)
     = map_sum id (\<lambda>(g, c'). (g, c'\<lparr>model := (model c')\<lparr>volumes := v\<rparr>\<rparr>)) (reEvaluate c)"
  by (simp add: reEvaluate_def contribIndex_def loc_def calcModelIV_def evaluate_def Let_def
      split: sum.splits prod.splits)

lemma optimize_Inr_iterN:
  "optimize c = Inr c' \<Longrightarrow>
     \<exists>n. iterN n c = Inr c' \<and> \<not> continue_cond c'
        \<and> (\<forall>k<n. \<exists>ck. iterN k c = Inr ck \<and> continue_cond ck)"
proof (induction c rule: optimize.induct)
  case (1 c)
  show ?case
  proof (cases "continue_cond c")
    case False
    with "1.prems" have "c' = c" by (simp add: optimize.simps [of c])
    with False have "iterN 0 c = Inr c' \<and> \<not> continue_cond c'
        \<and> (\<forall>k<0. \<exists>ck. iterN k c = Inr ck \<and> continue_cond ck)" by simp
    then show ?thesis by blast
  next
    case True
    with "1.prems" obtain c1 where it: "iterate c = Inr c1" and op: "optimize c1 = Inr c'"
      by (auto simp: optimize.simps [of c] split: sum.splits)
    from "1.IH" [OF True it op] obtain n where
      n: "iterN n c1 = Inr c'" "\<not> continue_cond c'"
         "\<forall>k<n. \<exists>ck. iterN k c1 = Inr ck \<and> continue_cond ck"
      by blast
    have "\<forall>k<Suc n. \<exists>ck. iterN k c = Inr ck \<and> continue_cond ck"
    proof (intro allI impI)
      fix k assume "k < Suc n"
      show "\<exists>ck. iterN k c = Inr ck \<and> continue_cond ck"
      proof (cases k)
        case 0
        with True show ?thesis by simp
      next
        case (Suc j)
        with \<open>k < Suc n\<close> n(3) it show ?thesis by simp
      qed
    qed
    moreover have "iterN (Suc n) c = Inr c'" using it n(1) by simp
    ultimately show ?thesis using n(2) by blast
  qed
qed

lemma initModelI_loop_opt:
  "initModelI_loop is c = Inr c' \<Longrightarrow>
     step (opt c') = step (opt c) \<and> accepted (opt c') = accepted (opt c)
     \<and> x0 (opt c') = x0 (opt c) \<and> gof (opt c') = gof (opt c) \<and> OSB c' = OSB c"
  by (induction "is" arbitrary: c) (auto simp: Let_def split: sum.splits prod.splits)

lemma initModelI_opt:
  "initModelI c = Inr c' \<Longrightarrow>
     step (opt c') = step (opt c) \<and> accepted (opt c') = accepted (opt c)
     \<and> x0 (opt c') = x0 (opt c) \<and> gof (opt c') = gof (opt c) \<and> OSB c' = OSB c"
  by (auto simp: initModelI_def Let_def split: sum.splits prod.splits if_splits
      dest!: initModelI_loop_opt)

lemma McCore_init_fresh_counters:
  assumes "McCore_init E md (Some m) (Some ot) None None = Inr c"
  shows "step (opt c) = 0 \<and> accepted (opt c) = 0"
  using assms
  by (auto simp: McCore_init_def Let_def split: sum.splits prod.splits
      dest!: initModelI_opt evaluate_Inr)

text \<open>
  When a step completes: the index is in range of \<open>volumes\<close>, the row is there, the
  kernel gives vectors of the length of \<open>modelI\<close> and the solver returns. The length of
  \<open>volumes\<close> is kept.
\<close>

lemma iterate_returns:
  assumes n: "0 < nContrib (model c)"
    and vl: "length (volumes (model c)) = nat (nContrib (model c))"
    and row: "parameterSet (model c) (step (opt c) mod nContrib (model c)) = Some row"
    and lo: "length (Fsq (kernel (model c) (staticParameters (model c) ++ row)))
               = length (modelI (opt c))"
    and lp: "length (Fsq (kernel (model c) (staticParameters (model c) ++ draws (model c) 0)))
               = length (modelI (opt c))"
    and ok: "OSB c (trialI c (kernel (model c) (staticParameters (model c) ++ row))
                   (kernel (model c) (staticParameters (model c) ++ draws (model c) 0)))
                 (x0 (opt c)) = Inr (tx0, g)"
  shows "\<exists>c'. iterate c = Inr c' \<and> length (volumes (model c')) = nat (nContrib (model c'))
           \<and> nContrib (model c') = nContrib (model c)"
proof -
  let ?c1 = "c\<lparr>model := pick (model c)\<rparr>"
  from n have n0: "nContrib (model c) \<noteq> 0" by simp
  have re: "\<exists>c2. reEvaluate ?c1 = Inr (g, c2)"
    using reEvaluate_eq [of ?c1 row] n0 row lo lp ok
    by (simp add: pick_def trialI_def Let_def)
  then obtain c2 where c2: "reEvaluate ?c1 = Inr (g, c2)" by blast
  note fr = reEvaluate_Inr [OF c2]
  have m: "model c2 = pick (model c)" using fr by simp
  have idx: "0 \<le> step (opt c) mod nContrib (model c)"
    "step (opt c) mod nContrib (model c) < int (length (volumes (model c)))"
    using n vl by simp_all
  show ?thesis
  proof (cases "g < gof (opt c2)")
    case False
    with c2 m vl show ?thesis
      by (simp add: iterate_def Let_def pick_def)
  next
    case True
    have "\<exists>c3. accept c2 = Inr c3 \<and> length (volumes (model c3)) = length (volumes (model c))
        \<and> nContrib (model c3) = nContrib (model c)"
      using n0 idx fr m
      by (simp add: accept_def contribIndex_def np_setitem_def Let_def pick_def)
    with True c2 vl show ?thesis
      by (auto simp: iterate_def Let_def)
  qed
qed

lemmas ex_defs = ex_core_def ex_model_def ex_opt_def ex_measData_def ex_draws_def ex_row_def ex_kernel_def ex_match_def
lemmas run_defs = iterate_def pick_def reEvaluate_def contribIndex_def loc_def calcModelIV_def np_binop_def evaluate_def accept_def np_setitem_def Let_def

subsection \<open>Acceptance is strict descent\<close>

text \<open>
  Claim C1. In every step of the iteration that completes, the proposed move is accepted
  (the counter \<open>accepted\<close> grows by one) if and only if the goodness of fit computed
  for the trial is strictly less than the current one. A tie is rejected, and an
  accepted step leaves a stored \<open>gof\<close> that is strictly smaller than before.
\<close>

theorem iterate_accept_iff_strict_descent:
  assumes "iterate c = Inr c'"
  shows "\<exists>newGof c2. reEvaluate (c\<lparr>model := pick (model c)\<rparr>) = Inr (newGof, c2)
          \<and> (accepted (opt c') = accepted (opt c) + 1 \<longleftrightarrow> newGof < gof (opt c))
          \<and> (accepted (opt c') = accepted (opt c) \<longleftrightarrow> \<not> newGof < gof (opt c))
          \<and> (newGof = gof (opt c) \<longrightarrow> accepted (opt c') = accepted (opt c) \<and> gof (opt c') = gof (opt c))
          \<and> (accepted (opt c') = accepted (opt c) + 1 \<longrightarrow> gof (opt c') = newGof \<and> gof (opt c') < gof (opt c))"
  using assms
  by (auto simp: iterate_def accept_def Let_def pick_def split: sum.splits prod.splits if_splits dest!: reEvaluate_Inr)

theorem iterate_accept_iff_strict_descent_witness:
  "(\<exists>c'. iterate ex_core = Inr c' \<and> accepted (opt c') = accepted (opt ex_core) + 1
        \<and> gof (opt c') < gof (opt ex_core))
   \<and> (\<exists>c' g c2. iterate ex_core_tie = Inr c'
        \<and> reEvaluate (ex_core_tie\<lparr>model := pick (model ex_core_tie)\<rparr>) = Inr (g, c2)
        \<and> g = gof (opt ex_core_tie) \<and> accepted (opt c') = accepted (opt ex_core_tie))"
proof -
  have "\<exists>c'. iterate ex_core = Inr c' \<and> accepted (opt c') = accepted (opt ex_core) + 1"
    by (simp add: ex_defs run_defs)
  then obtain c' where a: "iterate ex_core = Inr c'" "accepted (opt c') = accepted (opt ex_core) + 1"
    by blast
  from iterate_accept_iff_strict_descent [OF a(1)] a(2)
  have "gof (opt c') < gof (opt ex_core)" by auto
  with a have 1: "\<exists>c'. iterate ex_core = Inr c' \<and> accepted (opt c') = accepted (opt ex_core) + 1
        \<and> gof (opt c') < gof (opt ex_core)" by blast
  have "\<exists>d'. iterate ex_core_tie = Inr d'"
    by (simp add: ex_core_tie_def ex_defs run_defs)
  then obtain d' where b: "iterate ex_core_tie = Inr d'"
    by blast
  have "\<exists>c2. reEvaluate (ex_core_tie\<lparr>model := pick (model ex_core_tie)\<rparr>)
           = Inr (gof (opt ex_core_tie), c2)"
    by (simp add: ex_core_tie_def ex_defs run_defs)
  then obtain g c2 where r: "reEvaluate (ex_core_tie\<lparr>model := pick (model ex_core_tie)\<rparr>) = Inr (g, c2)"
     "g = gof (opt ex_core_tie)"
    by blast
  from iterate_accept_iff_strict_descent [OF b] r
  have "accepted (opt d') = accepted (opt ex_core_tie)" by auto
  with b r have "\<exists>c' g c2. iterate ex_core_tie = Inr c'
        \<and> reEvaluate (ex_core_tie\<lparr>model := pick (model ex_core_tie)\<rparr>) = Inr (g, c2)
        \<and> g = gof (opt ex_core_tie) \<and> accepted (opt c') = accepted (opt ex_core_tie)" by blast
  with 1 show ?thesis by blast
qed

subsection \<open>The trial intensity\<close>

text \<open>
  Claim C2. The contribution considered for replacement has index \<open>step mod nContrib\<close>.
  Its old intensity is the result of a kernel call on that row of \<open>parameterSet\<close>
  (together with the static parameters), the trial intensity is, point by point,
  \<open>modelI + (Fsq_pick / V_pick - Fsq_old / V_old) / nContrib\<close>, and this is what the
  solver is called on. The stored \<open>volumes\<close> play no part: replacing them by any other
  array changes nothing but that field.
\<close>

theorem reEvaluate_round_robin_trial:
  assumes n: "nContrib (model c) \<noteq> 0"
    and row: "parameterSet (model c) (step (opt c) mod nContrib (model c)) = Some row"
    and lo: "length (Fsq (kernel (model c) (staticParameters (model c) ++ row)))
               = length (modelI (opt c))"
    and lp: "length (Fsq (kernel (model c) (staticParameters (model c) ++ pickParameters (model c))))
               = length (modelI (opt c))"
  shows "contribIndex c = Inr (step (opt c) mod nContrib (model c))
     \<and> reEvaluate c =
         (let rold = kernel (model c) (staticParameters (model c) ++ row);
              rpick = kernel (model c) (staticParameters (model c) ++ pickParameters (model c));
              tI = trialI c rold rpick
          in case OSB c tI (x0 (opt c)) of
               Inl e \<Rightarrow> Inl e
             | Inr (tx0, g) \<Rightarrow>
                 Inr (g, c\<lparr>opt := (opt c)\<lparr>testModelI := tI, testModelV := V_shell rpick,
                                           testX0 := tx0\<rparr>\<rparr>))
     \<and> (\<forall>v. reEvaluate (c\<lparr>model := (model c)\<lparr>volumes := v\<rparr>\<rparr>)
             = map_sum id (\<lambda>(g, c'). (g, c'\<lparr>model := (model c')\<lparr>volumes := v\<rparr>\<rparr>)) (reEvaluate c))"
  using reEvaluate_eq [OF n row lo lp] n
  by (simp add: reEvaluate_volumes contribIndex_def)

theorem reEvaluate_round_robin_trial_witness:
  "\<exists>c'. reEvaluate ((ex_core\<lparr>opt := ex_opt\<lparr>step := 3\<rparr>\<rparr>)\<lparr>model := pick ex_model\<rparr>) = Inr (45 / 4, c')
     \<and> testModelI (opt c') = [3 / 2, 3] \<and> testModelV (opt c') = 2"
proof -
  define c where "c = (ex_core\<lparr>opt := ex_opt\<lparr>step := 3\<rparr>\<rparr>)\<lparr>model := pick ex_model\<rparr>"
  have n: "nContrib (model c) \<noteq> 0"
    by (simp add: c_def ex_defs pick_def)
  have row: "parameterSet (model c) (step (opt c) mod nContrib (model c)) = Some (ex_row 1)"
    by (simp add: c_def ex_defs pick_def)
  have lo: "length (Fsq (kernel (model c) (staticParameters (model c) ++ ex_row 1)))
               = length (modelI (opt c))"
    by (simp add: c_def ex_defs pick_def)
  have lp: "length (Fsq (kernel (model c) (staticParameters (model c) ++ pickParameters (model c))))
               = length (modelI (opt c))"
    by (simp add: c_def ex_defs pick_def)
  note eq = reEvaluate_round_robin_trial [OF n row lo lp, THEN conjunct2, THEN conjunct1]
  have "\<exists>c'. reEvaluate c = Inr (45 / 4, c')
     \<and> testModelI (opt c') = [3 / 2, 3] \<and> testModelV (opt c') = 2"
    unfolding eq by (simp add: c_def ex_defs pick_def trialI_def Let_def)
  then show ?thesis by (simp only: c_def)
qed

subsection \<open>The loop of optimize\<close>

lemma optimize_Inl_iterN:
  "optimize c = Inl e \<Longrightarrow>
     \<exists>n. iterN (Suc n) c = Inl e \<and> (\<forall>k\<le>n. \<exists>ck. iterN k c = Inr ck \<and> continue_cond ck)"
proof (induction c rule: optimize.induct)
  case (1 c)
  from "1.prems" have cc: "continue_cond c"
    by (auto simp: optimize.simps [of c] split: if_splits)
  show ?case
  proof (cases "iterate c")
    case (Inl e')
    with "1.prems" cc have "e' = e" by (simp add: optimize.simps [of c])
    with Inl cc have "iterN (Suc 0) c = Inl e
        \<and> (\<forall>k\<le>0. \<exists>ck. iterN k c = Inr ck \<and> continue_cond ck)" by simp
    then show ?thesis by blast
  next
    case (Inr c1)
    with "1.prems" cc have op: "optimize c1 = Inl e" by (simp add: optimize.simps [of c])
    from "1.IH" [OF cc Inr op] obtain n where
      n: "iterN (Suc n) c1 = Inl e" "\<forall>k\<le>n. \<exists>ck. iterN k c1 = Inr ck \<and> continue_cond ck"
      by blast
    have "\<forall>k\<le>Suc n. \<exists>ck. iterN k c = Inr ck \<and> continue_cond ck"
    proof (intro allI impI)
      fix k assume "k \<le> Suc n"
      show "\<exists>ck. iterN k c = Inr ck \<and> continue_cond ck"
      proof (cases k)
        case 0
        with cc show ?thesis by simp
      next
        case (Suc j)
        with \<open>k \<le> Suc n\<close> n(2) Inr show ?thesis by simp
      qed
    qed
    moreover have "iterN (Suc (Suc n)) c = Inl e" using Inr n(1) by simp
    ultimately show ?thesis by blast
  qed
qed

text \<open>
  Claim C3. The loop of \<^verbatim>\<open>optimize\<close> runs exactly while
  \<open>accepted < maxAccept\<close>, \<open>step < maxIter\<close> and \<open>gof > convCrit\<close> all hold: its
  result is the state after \<open>n\<close> calls of \<^verbatim>\<open>iterate\<close>, where the condition held
  before each of the \<open>n\<close> calls and fails after the last (or the exception of the first
  call that raised, the condition having held up to it). When the goodness of fit does
  not exceed \<open>convCrit\<close> at the start, the body never runs and the state is returned as
  it is; after a construction without a file, \<open>step\<close> and \<open>accepted\<close> are 0.
\<close>

theorem optimize_runs_while_condition:
  "(optimize c = Inr c' \<longrightarrow>
      (\<exists>n. iterN n c = Inr c' \<and> \<not> continue_cond c'
         \<and> (\<forall>k<n. \<exists>ck. iterN k c = Inr ck \<and> continue_cond ck)))
   \<and> (optimize c = Inl e \<longrightarrow>
      (\<exists>n. iterN (Suc n) c = Inl e \<and> (\<forall>k\<le>n. \<exists>ck. iterN k c = Inr ck \<and> continue_cond ck)))
   \<and> (continue_cond c \<longleftrightarrow>
        accepted (opt c) < maxAccept (opt c) \<and> step (opt c) < maxIter (opt c)
        \<and> gof (opt c) > convCrit (opt c))
   \<and> (\<not> gof (opt c) > convCrit (opt c) \<longrightarrow> optimize c = Inr c)
   \<and> (McCore_init E md (Some m) (Some ot) None None = Inr c \<longrightarrow>
        step (opt c) = 0 \<and> accepted (opt c) = 0)"
proof (intro conjI impI)
  assume "optimize c = Inr c'"
  then show "\<exists>n. iterN n c = Inr c' \<and> \<not> continue_cond c'
         \<and> (\<forall>k<n. \<exists>ck. iterN k c = Inr ck \<and> continue_cond ck)"
    by (rule optimize_Inr_iterN)
next
  assume "optimize c = Inl e"
  then show "\<exists>n. iterN (Suc n) c = Inl e \<and> (\<forall>k\<le>n. \<exists>ck. iterN k c = Inr ck \<and> continue_cond ck)"
    by (rule optimize_Inl_iterN)
next
  show "continue_cond c \<longleftrightarrow>
        accepted (opt c) < maxAccept (opt c) \<and> step (opt c) < maxIter (opt c)
        \<and> gof (opt c) > convCrit (opt c)"
    by (simp add: continue_cond_def)
next
  assume "\<not> gof (opt c) > convCrit (opt c)"
  then show "optimize c = Inr c"
    by (simp add: optimize.simps [of c] continue_cond_def)
next
  assume i: "McCore_init E md (Some m) (Some ot) None None = Inr c"
  from McCore_init_fresh_counters [OF i] show "step (opt c) = 0" by simp
  from McCore_init_fresh_counters [OF i] show "accepted (opt c) = 0" by simp
qed

lemma ex_optimize:
  "\<exists>c'. optimize ex_core = Inr c' \<and> step (opt c') = 3 \<and> accepted (opt c') = 2 \<and> gof (opt c') = 5 / 4"
  by (simp add: optimize.simps continue_cond_def ex_defs run_defs)

lemma ex_init:
  "\<exists>c. McCore_init ex_env ex_measData (Some ex_model)
          (Some (ex_opt\<lparr>step := 7, accepted := 5, convCrit := 10 ^ 12\<rparr>)) None None = Inr c
       \<and> gof (opt c) = 20 \<and> convCrit (opt c) = 10 ^ 12"
  by (simp add: McCore_init_def initModelI_def upto.simps np_iadd_def ex_env_def ex_defs run_defs)

theorem optimize_runs_while_condition_witness:
  "(\<exists>c' n. optimize ex_core = Inr c' \<and> step (opt c') = 3 \<and> accepted (opt c') = 2
        \<and> iterN n ex_core = Inr c' \<and> \<not> continue_cond c')
   \<and> (\<exists>c. McCore_init ex_env ex_measData (Some ex_model)
          (Some (ex_opt\<lparr>step := 7, accepted := 5, convCrit := 10 ^ 12\<rparr>)) None None = Inr c
        \<and> optimize c = Inr c \<and> step (opt c) = 0 \<and> accepted (opt c) = 0)"
proof -
  from ex_optimize obtain c' where
    o: "optimize ex_core = Inr c'" "step (opt c') = 3" "accepted (opt c') = 2"
    by blast
  from optimize_runs_while_condition [of ex_core c'] o(1)
  obtain n where "iterN n ex_core = Inr c'" "\<not> continue_cond c'"
    by blast
  with o have 1: "\<exists>c' n. optimize ex_core = Inr c' \<and> step (opt c') = 3 \<and> accepted (opt c') = 2
        \<and> iterN n ex_core = Inr c' \<and> \<not> continue_cond c'"
    by blast
  from ex_init obtain c where
    i: "McCore_init ex_env ex_measData (Some ex_model)
          (Some (ex_opt\<lparr>step := 7, accepted := 5, convCrit := 10 ^ 12\<rparr>)) None None = Inr c"
      "gof (opt c) = 20" "convCrit (opt c) = 10 ^ 12"
    by blast
  from i(2,3) have "\<not> gof (opt c) > convCrit (opt c)" by simp
  with optimize_runs_while_condition [of c c undefined ex_env ex_measData ex_model
      "ex_opt\<lparr>step := 7, accepted := 5, convCrit := 10 ^ 12\<rparr>"] i(1)
  have "optimize c = Inr c \<and> step (opt c) = 0 \<and> accepted (opt c) = 0"
    by blast
  with i(1) 1 show ?thesis by blast
qed

subsection \<open>What a step changes\<close>

lemma np_setitem_nonneg:
  "np_setitem a i v = Inr b \<Longrightarrow> 0 \<le> i \<Longrightarrow> nat i < length a \<and> b = a[nat i := v]"
  by (auto simp: np_setitem_def split: if_splits)

lemma reEvaluate_testModelV:
  "reEvaluate c = Inr (g, c') \<Longrightarrow>
     testModelV (opt c')
       = V_shell (kernel (model c) (staticParameters (model c) ++ pickParameters (model c)))"
  by (auto simp: reEvaluate_def calcModelIV_def Let_def split: sum.splits prod.splits
      dest!: evaluate_Inr)

text \<open>
  Claim C4. A rejected step leaves \<open>parameterSet\<close>, \<open>volumes\<close>, \<open>modelI\<close>, \<open>x0\<close>,
  \<open>gof\<close> (and \<open>accepted\<close>) as they were; the step counter grows by exactly one
  whether the step is accepted or rejected; an accepted step sets \<open>modelI\<close> to the
  trial intensity, \<open>x0\<close> to the trial scaling and background, \<open>volumes[i]\<close> to the
  volume of the pick, \<open>parameterSet[i]\<close> to the pick, adds one to \<open>accepted\<close> and
  sets \<open>gof\<close> to the new goodness of fit, for \<open>i = step mod nContrib\<close>.
\<close>

theorem iterate_frame:
  assumes "iterate c = Inr c'"
  shows "\<exists>newGof c2. reEvaluate (c\<lparr>model := pick (model c)\<rparr>) = Inr (newGof, c2)
     \<and> step (opt c') = step (opt c) + 1
     \<and> (\<not> newGof < gof (opt c) \<longrightarrow>
          parameterSet (model c') = parameterSet (model c)
          \<and> volumes (model c') = volumes (model c)
          \<and> modelI (opt c') = modelI (opt c) \<and> x0 (opt c') = x0 (opt c)
          \<and> gof (opt c') = gof (opt c) \<and> accepted (opt c') = accepted (opt c))
     \<and> (newGof < gof (opt c) \<longrightarrow>
          modelI (opt c') = testModelI (opt c2) \<and> x0 (opt c') = testX0 (opt c2)
          \<and> np_setitem (volumes (model c)) (step (opt c) mod nContrib (model c))
               (testModelV (opt c2)) = Inr (volumes (model c'))
          \<and> (0 < nContrib (model c) \<longrightarrow>
                nat (step (opt c) mod nContrib (model c)) < length (volumes (model c))
                \<and> volumes (model c')
                  = (volumes (model c))[nat (step (opt c) mod nContrib (model c))
                                         := testModelV (opt c2)])
          \<and> testModelV (opt c2)
              = V_shell (kernel (model c) (staticParameters (model c) ++ draws (model c) 0))
          \<and> parameterSet (model c')
              = (parameterSet (model c))(step (opt c) mod nContrib (model c) \<mapsto> draws (model c) 0)
          \<and> accepted (opt c') = accepted (opt c) + 1 \<and> gof (opt c') = newGof)"
proof -
  let ?c1 = "c\<lparr>model := pick (model c)\<rparr>"
  from assms obtain newGof c2 where re: "reEvaluate ?c1 = Inr (newGof, c2)"
    by (auto simp: iterate_def Let_def split: sum.splits)
  note fr = reEvaluate_Inr [OF re]
  have tv: "testModelV (opt c2)
      = V_shell (kernel (model c) (staticParameters (model c) ++ draws (model c) 0))"
    using reEvaluate_testModelV [OF re] by (simp add: pick_def)
  have st: "step (opt c') = step (opt c) + 1"
    using assms re fr
    by (auto simp: iterate_def accept_def Let_def split: sum.splits if_splits)
  have rej: "parameterSet (model c') = parameterSet (model c)
          \<and> volumes (model c') = volumes (model c)
          \<and> modelI (opt c') = modelI (opt c) \<and> x0 (opt c') = x0 (opt c)
          \<and> gof (opt c') = gof (opt c) \<and> accepted (opt c') = accepted (opt c)"
    if "\<not> newGof < gof (opt c)"
    using assms re fr that by (auto simp: iterate_def Let_def pick_def)
  have acc: "modelI (opt c') = testModelI (opt c2) \<and> x0 (opt c') = testX0 (opt c2)
          \<and> np_setitem (volumes (model c)) (step (opt c) mod nContrib (model c))
               (testModelV (opt c2)) = Inr (volumes (model c'))
          \<and> parameterSet (model c')
              = (parameterSet (model c))(step (opt c) mod nContrib (model c) \<mapsto> draws (model c) 0)
          \<and> accepted (opt c') = accepted (opt c) + 1 \<and> gof (opt c') = newGof"
    if "newGof < gof (opt c)"
    using assms re fr that
    by (auto simp: iterate_def accept_def contribIndex_def Let_def pick_def
        split: sum.splits if_splits)
  have vol: "nat (step (opt c) mod nContrib (model c)) < length (volumes (model c))
                \<and> volumes (model c')
                  = (volumes (model c))[nat (step (opt c) mod nContrib (model c))
                                         := testModelV (opt c2)]"
    if "newGof < gof (opt c)" "0 < nContrib (model c)"
  proof -
    from acc [OF that(1)] have "np_setitem (volumes (model c)) (step (opt c) mod nContrib (model c))
               (testModelV (opt c2)) = Inr (volumes (model c'))" by simp
    moreover from that(2) have "0 \<le> step (opt c) mod nContrib (model c)" by simp
    ultimately show ?thesis by (rule np_setitem_nonneg)
  qed
  from re st rej acc vol tv show ?thesis by blast
qed

theorem iterate_frame_witness:
  "(\<exists>c'. iterate ex_core = Inr c' \<and> step (opt c') = 1 \<and> accepted (opt c') = 1
        \<and> volumes (model c') = [2, 2] \<and> gof (opt c') = 45 / 4
        \<and> parameterSet (model c') 0 = Some (ex_row 2))
   \<and> (\<exists>c'. iterate ex_core_tie = Inr c' \<and> step (opt c') = 3
        \<and> parameterSet (model c') = parameterSet (model ex_core_tie)
        \<and> modelI (opt c') = modelI (opt ex_core_tie) \<and> gof (opt c') = gof (opt ex_core_tie))"
proof -
  have "\<exists>c'. iterate ex_core = Inr c'"
    by (simp add: ex_defs run_defs)
  then obtain c' where a: "iterate ex_core = Inr c'" by blast
  from iterate_frame [OF a] obtain g c2 where
    r: "reEvaluate (ex_core\<lparr>model := pick (model ex_core)\<rparr>) = Inr (g, c2)"
    and st: "step (opt c') = step (opt ex_core) + 1"
    and ac: "g < gof (opt ex_core) \<longrightarrow>
          np_setitem (volumes (model ex_core)) (step (opt ex_core) mod nContrib (model ex_core))
               (testModelV (opt c2)) = Inr (volumes (model c'))
          \<and> parameterSet (model c')
              = (parameterSet (model ex_core))(step (opt ex_core) mod nContrib (model ex_core)
                   \<mapsto> draws (model ex_core) 0)
          \<and> accepted (opt c') = accepted (opt ex_core) + 1 \<and> gof (opt c') = g"
    by blast
  have "\<exists>c2. reEvaluate (ex_core\<lparr>model := pick (model ex_core)\<rparr>) = Inr (45 / 4, c2)
          \<and> testModelV (opt c2) = 2"
    by (simp add: ex_defs run_defs)
  with r have g: "g = 45 / 4" "testModelV (opt c2) = 2" by auto
  have lt: "g < gof (opt ex_core)" by (simp add: g ex_defs)
  from ac lt g st have 1: "step (opt c') = 1 \<and> accepted (opt c') = 1
        \<and> volumes (model c') = [2, 2] \<and> gof (opt c') = 45 / 4
        \<and> parameterSet (model c') 0 = Some (ex_row 2)"
    by (simp add: ex_defs np_setitem_def)
  have "\<exists>d'. iterate ex_core_tie = Inr d'"
    by (simp add: ex_core_tie_def ex_defs run_defs)
  then obtain d' where b: "iterate ex_core_tie = Inr d'" by blast
  from iterate_frame [OF b] obtain h d2 where
    r2: "reEvaluate (ex_core_tie\<lparr>model := pick (model ex_core_tie)\<rparr>) = Inr (h, d2)"
    and st2: "step (opt d') = step (opt ex_core_tie) + 1"
    and rj: "\<not> h < gof (opt ex_core_tie) \<longrightarrow>
          parameterSet (model d') = parameterSet (model ex_core_tie)
          \<and> modelI (opt d') = modelI (opt ex_core_tie) \<and> gof (opt d') = gof (opt ex_core_tie)"
    by blast
  have "\<exists>c2. reEvaluate (ex_core_tie\<lparr>model := pick (model ex_core_tie)\<rparr>)
           = Inr (gof (opt ex_core_tie), c2)"
    by (simp add: ex_core_tie_def ex_defs run_defs)
  with r2 have "h = gof (opt ex_core_tie)" by auto
  with rj st2 have 2: "step (opt d') = 3
        \<and> parameterSet (model d') = parameterSet (model ex_core_tie)
        \<and> modelI (opt d') = modelI (opt ex_core_tie) \<and> gof (opt d') = gof (opt ex_core_tie)"
    by (simp add: ex_core_tie_def ex_defs)
  from a 1 b 2 show ?thesis by blast
qed

subsection \<open>Loading a stored repetition\<close>

lemma initModelI_scratch:
  "initModelI (c\<lparr>opt := (opt c)\<lparr>modelI := a\<rparr>, model := (model c)\<lparr>volumes := v\<rparr>\<rparr>)
     = initModelI c"
  by (simp add: initModelI_def loc_def calcModelIV_def Let_def split: sum.splits prod.splits)

text \<open>
  Claim C5. When a repetition is loaded, the core recomputes \<open>modelI\<close> from the
  contributions alone (whatever \<open>modelI\<close> and \<open>volumes\<close> the file held), obtains
  \<open>x0\<close> and \<open>gof\<close> from the solver on it, and the construction succeeds exactly if
  the stored goodness of fit, scaling and background each pass numpy's comparison to 3
  significant digits with the recomputed ones; otherwise it raises an assertion error
  that names the first value that disagrees.
\<close>

theorem load_checks_recomputed_values:
  assumes lm: "McModel_load E f r = Inr m"
    and lo: "McOpt_load E f r = Inr ot"
    and c0: "c0 = \<lparr>core_measData = md, model = m\<lparr>kernel := func m (Q md)\<rparr>, opt = ot,
                   OSB = optimizeScalingAndBackground E (I md) (ISigma md)\<rparr>"
    and im: "initModelI c0 = Inr c1"
    and ev: "optimizeScalingAndBackground E (I md) (ISigma md) (modelI (opt c1)) (x0 ot)
               = Inr (tx0, g)"
  shows "McCore_init E md ma oa (Some f) (Some r) =
      (if \<not> approx_equal E (gof ot) g 3 then
         Inl (AssertionError
           ''goodness-of-fit mismatch between loaded results and new calculation'')
       else if \<not> approx_equal E (fst (x0 ot)) (fst tx0) 3 then
         Inl (AssertionError
           ''scaling factor mismatch between loaded results and new calculation'')
       else if \<not> approx_equal E (snd (x0 ot)) (snd tx0) 3 then
         Inl (AssertionError
           ''background mismatch between loaded results and new calculation'')
       else Inr (c1\<lparr>opt := (opt c1)\<lparr>testX0 := tx0, gof := g, x0 := tx0\<rparr>\<rparr>))
    \<and> ((\<exists>c. McCore_init E md ma oa (Some f) (Some r) = Inr c) \<longleftrightarrow>
          approx_equal E (gof ot) g 3 \<and> approx_equal E (fst (x0 ot)) (fst tx0) 3
          \<and> approx_equal E (snd (x0 ot)) (snd tx0) 3)
    \<and> (\<forall>a v. initModelI (c0\<lparr>opt := (opt c0)\<lparr>modelI := a\<rparr>,
                             model := (model c0)\<lparr>volumes := v\<rparr>\<rparr>) = Inr c1)"
proof -
  from initModelI_opt [OF im] c0
  have keep: "x0 (opt c1) = x0 ot" "OSB c1 = optimizeScalingAndBackground E (I md) (ISigma md)"
    by simp_all
  have e: "evaluate c1 None = Inr (g, c1\<lparr>opt := (opt c1)\<lparr>testX0 := tx0\<rparr>\<rparr>)"
    using ev keep by (simp add: evaluate_def)
  have eq: "McCore_init E md ma oa (Some f) (Some r) =
      (if \<not> approx_equal E (gof ot) g 3 then
         Inl (AssertionError
           ''goodness-of-fit mismatch between loaded results and new calculation'')
       else if \<not> approx_equal E (fst (x0 ot)) (fst tx0) 3 then
         Inl (AssertionError
           ''scaling factor mismatch between loaded results and new calculation'')
       else if \<not> approx_equal E (snd (x0 ot)) (snd tx0) 3 then
         Inl (AssertionError
           ''background mismatch between loaded results and new calculation'')
       else Inr (c1\<lparr>opt := (opt c1)\<lparr>testX0 := tx0, gof := g, x0 := tx0\<rparr>\<rparr>))"
    using lm lo im [unfolded c0] e
    by (simp add: McCore_init_def load_def Let_def)
  have "(\<exists>c. McCore_init E md ma oa (Some f) (Some r) = Inr c) \<longleftrightarrow>
          approx_equal E (gof ot) g 3 \<and> approx_equal E (fst (x0 ot)) (fst tx0) 3
          \<and> approx_equal E (snd (x0 ot)) (snd tx0) 3"
    unfolding eq by simp
  moreover have "\<forall>a v. initModelI (c0\<lparr>opt := (opt c0)\<lparr>modelI := a\<rparr>,
                             model := (model c0)\<lparr>volumes := v\<rparr>\<rparr>) = Inr c1"
    using im by (simp only: initModelI_scratch) simp
  ultimately show ?thesis using eq by blast
qed

theorem load_checks_recomputed_values_witness:
  "(\<exists>c. McCore_init ex_env ex_measData None None (Some ''run.nxs'') (Some 0) = Inr c)
   \<and> McCore_init ex_env ex_measData None None (Some ''run.nxs'') (Some 1)
       = Inl (AssertionError
           ''goodness-of-fit mismatch between loaded results and new calculation'')"
proof -
  define c0 where "c0 = \<lparr>core_measData = ex_measData,
      model = ex_model\<lparr>kernel := func ex_model (Q ex_measData)\<rparr>, opt = ex_stored_opt 0,
      OSB = optimizeScalingAndBackground ex_env (I ex_measData) (ISigma ex_measData)\<rparr>"
  define d0 where "d0 = \<lparr>core_measData = ex_measData,
      model = ex_model\<lparr>kernel := func ex_model (Q ex_measData)\<rparr>, opt = ex_stored_opt 1,
      OSB = optimizeScalingAndBackground ex_env (I ex_measData) (ISigma ex_measData)\<rparr>"
  have lm: "McModel_load ex_env ''run.nxs'' r = Inr ex_model" for r
    by (simp add: ex_env_def)
  have lo: "McOpt_load ex_env ''run.nxs'' r = Inr (ex_stored_opt r)" for r
    by (simp add: ex_env_def)
  have "\<exists>c1. initModelI c0 = Inr c1 \<and> modelI (opt c1) = [1, 2]"
    by (simp add: c0_def initModelI_def upto.simps np_iadd_def ex_stored_opt_def ex_env_def
        ex_defs run_defs)
  then obtain c1 where im: "initModelI c0 = Inr c1" and mI: "modelI (opt c1) = [1, 2]"
    by blast
  have ev: "optimizeScalingAndBackground ex_env (I ex_measData) (ISigma ex_measData)
              (modelI (opt c1)) (x0 (ex_stored_opt 0)) = Inr ((1, 0), 20)"
    by (simp add: mI ex_env_def ex_defs)
  have ok: "approx_equal ex_env (gof (ex_stored_opt 0)) 20 3
      \<and> approx_equal ex_env (fst (x0 (ex_stored_opt 0))) (fst (1, 0)) 3
      \<and> approx_equal ex_env (snd (x0 (ex_stored_opt 0))) (snd (1, 0)) 3"
    by (simp add: ex_env_def ex_approx_def ex_stored_opt_def ex_defs)
  from load_checks_recomputed_values [OF lm lo c0_def im ev, of None None] ok
  have 1: "\<exists>c. McCore_init ex_env ex_measData None None (Some ''run.nxs'') (Some 0) = Inr c"
    by blast
  have "\<exists>d1. initModelI d0 = Inr d1 \<and> modelI (opt d1) = [1, 2]"
    by (simp add: d0_def initModelI_def upto.simps np_iadd_def ex_stored_opt_def ex_env_def
        ex_defs run_defs)
  then obtain d1 where im2: "initModelI d0 = Inr d1" and mI2: "modelI (opt d1) = [1, 2]"
    by blast
  have ev2: "optimizeScalingAndBackground ex_env (I ex_measData) (ISigma ex_measData)
              (modelI (opt d1)) (x0 (ex_stored_opt 1)) = Inr ((1, 0), 20)"
    by (simp add: mI2 ex_env_def ex_stored_opt_def ex_defs)
  have bad: "\<not> approx_equal ex_env (gof (ex_stored_opt 1)) 20 3"
    by (simp add: ex_env_def ex_approx_def ex_stored_opt_def ex_defs)
  from load_checks_recomputed_values [OF lm lo d0_def im2 ev2, of None None,
      THEN conjunct1] bad
  have 2: "McCore_init ex_env ex_measData None None (Some ''run.nxs'') (Some 1)
       = Inl (AssertionError
           ''goodness-of-fit mismatch between loaded results and new calculation'')"
    by simp
  from 1 2 show ?thesis by blast
qed

subsection \<open>A failing solver\<close>

text \<open>
  Claim C8 says that a step whose trial evaluation fails in the solver is treated as a
  rejection. It is not: \<^verbatim>\<open>iterate\<close> and \<^verbatim>\<open>evaluate\<close> catch nothing. In the run
  below the solver fails on the trial intensity \<open>[0, 0]\<close>, and both the step and the
  whole loop end with that exception.
\<close>

theorem solver_failure_not_rejection_counterexample:
  "OSB ex_core_ill [0, 0] (x0 (opt ex_core_ill)) = Inl IllConditioned
   \<and> reEvaluate (ex_core_ill\<lparr>model := pick (model ex_core_ill)\<rparr>) = Inl IllConditioned
   \<and> iterate ex_core_ill = Inl IllConditioned
   \<and> continue_cond ex_core_ill
   \<and> optimize ex_core_ill = Inl IllConditioned"
  by (simp add: optimize.simps continue_cond_def ex_core_ill_def ex_defs run_defs)

text \<open>
  Claim C8, amended. If the solver fails on the trial intensity of a step, then
  \<^verbatim>\<open>iterate\<close> raises that exception, and so does \<^verbatim>\<open>optimize\<close> when the step
  is one the loop makes.
\<close>

theorem solver_failure_aborts:
  assumes n: "nContrib (model c) \<noteq> 0"
    and row: "parameterSet (model c) (step (opt c) mod nContrib (model c)) = Some row"
    and lo: "length (Fsq (kernel (model c) (staticParameters (model c) ++ row)))
               = length (modelI (opt c))"
    and lp: "length (Fsq (kernel (model c) (staticParameters (model c) ++ draws (model c) 0)))
               = length (modelI (opt c))"
    and fail: "OSB c (trialI c (kernel (model c) (staticParameters (model c) ++ row))
                   (kernel (model c) (staticParameters (model c) ++ draws (model c) 0)))
                 (x0 (opt c)) = Inl e"
  shows "iterate c = Inl e \<and> (continue_cond c \<longrightarrow> optimize c = Inl e)"
proof -
  let ?c1 = "c\<lparr>model := pick (model c)\<rparr>"
  have "reEvaluate ?c1 = Inl e"
    using reEvaluate_eq [of ?c1 row] n row lo lp fail
    by (simp add: pick_def trialI_def Let_def)
  then have it: "iterate c = Inl e"
    by (simp add: iterate_def Let_def)
  then show ?thesis
    by (simp add: optimize.simps [of c])
qed

theorem solver_failure_aborts_witness:
  "iterate ex_core_ill = Inl IllConditioned \<and> optimize ex_core_ill = Inl IllConditioned"
proof -
  have n: "nContrib (model ex_core_ill) \<noteq> 0"
    by (simp add: ex_core_ill_def ex_defs)
  have row: "parameterSet (model ex_core_ill)
      (step (opt ex_core_ill) mod nContrib (model ex_core_ill)) = Some (ex_row 1)"
    by (simp add: ex_core_ill_def ex_defs)
  have lo: "length (Fsq (kernel (model ex_core_ill)
               (staticParameters (model ex_core_ill) ++ ex_row 1)))
             = length (modelI (opt ex_core_ill))"
    by (simp add: ex_core_ill_def ex_defs)
  have lp: "length (Fsq (kernel (model ex_core_ill)
               (staticParameters (model ex_core_ill) ++ draws (model ex_core_ill) 0)))
             = length (modelI (opt ex_core_ill))"
    by (simp add: ex_core_ill_def ex_defs)
  have fail: "OSB ex_core_ill
       (trialI ex_core_ill
          (kernel (model ex_core_ill) (staticParameters (model ex_core_ill) ++ ex_row 1))
          (kernel (model ex_core_ill)
             (staticParameters (model ex_core_ill) ++ draws (model ex_core_ill) 0)))
       (x0 (opt ex_core_ill)) = Inl IllConditioned"
    by (simp add: ex_core_ill_def ex_defs trialI_def)
  have cc: "continue_cond ex_core_ill"
    by (simp add: continue_cond_def ex_core_ill_def ex_defs)
  from solver_failure_aborts [OF n row lo lp fail] cc show ?thesis
    by blast
qed

section \<open>Properties of the aggregator\<close>

subsection \<open>The check of the bin edges\<close>

text \<open>
  Claim C6 says that the aggregator fails whenever any two repetitions disagree on the
  bin edges of a range. It does not: below, the third repetition has other edges than
  the first two, and the histogram is averaged over all three without an exception, on
  the edges of the first.
\<close>

theorem bin_edges_third_repetition_counterexample:
  "averageHistogram ex_an3 0
     = Inr \<lparr>xMean = [1 / 2, 3 / 2], xWidth = [1, 1], yMean = [Some 2, Some 4],
            yStd = [Some 1, Some 1]\<rparr>
   \<and> the (concatBinEdges ex_an3 0) 2 \<noteq> the (concatBinEdges ex_an3 0) 0"
  by (simp add: averageHistogram_def check_binEdges_def getitem_def np_array2_def columns_def
      np_mean_def np_std_def np_diff_def np_binop_def ex_an3_def Let_def)

lemma mapM_err_getitem:
  "\<forall>r\<in>set reps. \<exists>v. d r = Some v \<Longrightarrow>
     mapM_err (\<lambda>rep. getitem d rep) reps = Inr (map (\<lambda>r. the (d r)) reps)"
  by (induction reps) (auto simp: getitem_def)

lemma np_binop_eq_same_length:
  "length e0 = length e1 \<Longrightarrow>
     \<exists>bs. np_binop (=) e0 e1 = Inr bs \<and> (list_all (\<lambda>b. b) bs \<longleftrightarrow> e0 = e1)"
proof -
  assume l: "length e0 = length e1"
  have "list_all (\<lambda>b. b) (map2 (=) e0 e1) \<longleftrightarrow> e0 = e1"
    using l by (induction e0 e1 rule: list_induct2) auto
  with l show ?thesis by (simp add: np_binop_def)
qed

text \<open>
  Claim C6, amended. When there is more than one repetition, \<^verbatim>\<open>averageHistogram\<close>
  asserts that the bin edges of the first two repetitions of \<open>repetitionList\<close> are
  equal, and raises an assertion error exactly if these two differ (for histograms that
  are all there with one number of bins, and edge vectors of one length).
\<close>

theorem averageHistogram_checks_first_two:
  assumes d: "concatHistograms a h = Some d"
    and hs: "\<forall>r\<in>set (repetitionList a). \<exists>v. d r = Some v \<and> length v = n"
    and two: "1 < length (repetitionList a)"
    and be: "concatBinEdges a h = Some be"
    and e0: "be (repetitionList a ! 0) = Some e0"
    and e1: "be (repetitionList a ! 1) = Some e1"
    and len: "length e0 = length e1"
  shows "averageHistogram a h = Inl (AssertionError []) \<longleftrightarrow> e0 \<noteq> e1"
proof -
  let ?reps = "repetitionList a"
  let ?rows = "map (\<lambda>r. the (d r)) ?reps"
  from two obtain r0 r1 rs where reps: "?reps = r0 # r1 # rs"
    by (cases ?reps; cases "tl ?reps") auto
  have ex: "\<forall>r\<in>set ?reps. \<exists>v. d r = Some v"
    using hs by blast
  have f: "(\<lambda>rep. case getitem (concatHistograms a) h of
                 Inl e \<Rightarrow> Inl e | Inr d \<Rightarrow> getitem d rep) = (\<lambda>rep. getitem d rep)"
    using d by (simp add: getitem_def)
  have rows: "mapM_err (\<lambda>rep. getitem d rep) ?reps = Inr ?rows"
    using mapM_err_getitem [OF ex] .
  have "\<forall>r\<in>set ?reps. length (the (d r)) = n"
    using hs by auto
  then have np: "np_array2 ?rows = Inr ?rows"
    by (auto simp: np_array2_def list_all_iff reps)
  from np_binop_eq_same_length [OF len] obtain bs where
    bs: "np_binop (=) e0 e1 = Inr bs" "list_all (\<lambda>b. b) bs \<longleftrightarrow> e0 = e1"
    by blast
  have chk: "check_binEdges a h = (if e0 = e1 then Inr () else Inl (AssertionError []))"
    using be e0 e1 two bs by (simp add: check_binEdges_def getitem_def)
  have r0: "be r0 = Some e0" using e0 reps by simp
  have "averageHistogram a h =
      (if e0 = e1 then
         (let xw = np_diff e0;
              xm = map2 (\<lambda>l w. l + 0.5 * w) (butlast e0) xw;
              ym = map np_mean (columns ?rows);
              ys = map (np_std (if length ?rows > 1 then 1 else 0)) (columns ?rows)
          in if ym = [] then
               Inr \<lparr>xMean = xm, xWidth = xw, yMean = replicate (length xw) None,
                    yStd = replicate (length xw) None\<rparr>
             else if length xw \<noteq> length ym then Inl ValueError
             else Inr \<lparr>xMean = xm, xWidth = xw, yMean = ym, yStd = ys\<rparr>)
       else Inl (AssertionError []))"
    unfolding averageHistogram_def f rows
    using np chk be r0
    by (simp add: getitem_def reps Let_def)
  then show ?thesis
    by (auto simp: Let_def split: if_splits)
qed

theorem averageHistogram_checks_first_two_witness:
  "averageHistogram (ex_an3\<lparr>concatBinEdges :=
        [0 \<mapsto> [0 \<mapsto> [0, 1, 2], 1 \<mapsto> [0, 1, 3], 2 \<mapsto> [0, 5, 10]]]\<rparr>) 0
     = Inl (AssertionError [])
   \<and> averageHistogram ex_an3 0 \<noteq> Inl (AssertionError [])"
proof -
  define a where "a = ex_an3\<lparr>concatBinEdges :=
        [0 \<mapsto> [0 \<mapsto> [0, 1, 2], 1 \<mapsto> [0, 1, 3], 2 \<mapsto> [0, 5, 10]]]\<rparr>"
  have d: "concatHistograms a 0 = Some [0 \<mapsto> [1, 3], 1 \<mapsto> [3, 5], 2 \<mapsto> [2, 4]]"
    by (simp add: a_def ex_an3_def)
  have hs: "\<forall>r\<in>set (repetitionList a).
      \<exists>v. [0 \<mapsto> [1, 3], 1 \<mapsto> [3, 5], 2 \<mapsto> [2, 4 :: real]] r = Some v \<and> length v = 2"
    by (simp add: a_def ex_an3_def)
  have two: "1 < length (repetitionList a)"
    by (simp add: a_def ex_an3_def)
  have be: "concatBinEdges a 0 = Some [0 \<mapsto> [0, 1, 2], 1 \<mapsto> [0, 1, 3], 2 \<mapsto> [0, 5, 10]]"
    by (simp add: a_def)
  have e0: "[0 \<mapsto> [0, 1, 2], 1 \<mapsto> [0, 1, 3], 2 \<mapsto> [0, 5, 10 :: real]] (repetitionList a ! 0)
      = Some [0, 1, 2]"
    by (simp add: a_def ex_an3_def)
  have e1: "[0 \<mapsto> [0, 1, 2], 1 \<mapsto> [0, 1, 3], 2 \<mapsto> [0, 5, 10 :: real]] (repetitionList a ! 1)
      = Some [0, 1, 3]"
    by (simp add: a_def ex_an3_def)
  have len: "length [0, 1, 2 :: real] = length [0, 1, 3 :: real]"
    by simp
  from averageHistogram_checks_first_two [OF d hs two be e0 e1 len]
  have 1: "averageHistogram a 0 = Inl (AssertionError [])"
    by simp
  have d3: "concatHistograms ex_an3 0 = Some [0 \<mapsto> [1, 3], 1 \<mapsto> [3, 5], 2 \<mapsto> [2, 4]]"
    by (simp add: ex_an3_def)
  have hs3: "\<forall>r\<in>set (repetitionList ex_an3).
      \<exists>v. [0 \<mapsto> [1, 3], 1 \<mapsto> [3, 5], 2 \<mapsto> [2, 4 :: real]] r = Some v \<and> length v = 2"
    by (simp add: ex_an3_def)
  have two3: "1 < length (repetitionList ex_an3)"
    by (simp add: ex_an3_def)
  have be3: "concatBinEdges ex_an3 0 = Some [0 \<mapsto> [0, 1, 2], 1 \<mapsto> [0, 1, 2], 2 \<mapsto> [0, 5, 10]]"
    by (simp add: ex_an3_def)
  have e03: "[0 \<mapsto> [0, 1, 2], 1 \<mapsto> [0, 1, 2], 2 \<mapsto> [0, 5, 10 :: real]] (repetitionList ex_an3 ! 0)
      = Some [0, 1, 2]"
    by (simp add: ex_an3_def)
  have e13: "[0 \<mapsto> [0, 1, 2], 1 \<mapsto> [0, 1, 2], 2 \<mapsto> [0, 5, 10 :: real]] (repetitionList ex_an3 ! 1)
      = Some [0, 1, 2]"
    by (simp add: ex_an3_def)
  from averageHistogram_checks_first_two [OF d3 hs3 two3 be3 e03 e13 refl]
  have 2: "averageHistogram ex_an3 0 \<noteq> Inl (AssertionError [])"
    by simp
  from 1 2 show ?thesis by (simp add: a_def)
qed

subsection \<open>Mean and standard deviation per bin and per mode\<close>

text \<open>
  Claim C7 says that, with a single repetition, every \<open>valStd\<close> of a mode is 0.
  \<^verbatim>\<open>averageMode\<close> takes the standard deviation with \<open>ddof = 1\<close> whatever the
  number of repetitions, and for one repetition that is not a number: the entry is
  missing, not 0.
\<close>

theorem single_repetition_valStd_counterexample:
  "length (repetitionList ex_an1) = 1 \<and> valStd ex_an1 0 ''mean'' = Inr None"
  by (simp add: valStd_def averageMode_def getitem_def pd_std_def np_std_def modeKeys_def
      ex_an1_def ex_an3_def ex_modes_def)

lemma mapM_err_Inr:
  "mapM_err f xs = Inr ys \<Longrightarrow> ys = map (\<lambda>x. projr (f x)) xs \<and> (\<forall>x\<in>set xs. isl (f x) = False)"
  by (induction xs arbitrary: ys) (auto split: sum.splits)

lemma np_mean_Some: "xs \<noteq> [] \<Longrightarrow> np_mean xs = Some (sum_list xs / real (length xs))"
  by (simp add: np_mean_def)

lemma np_std_Some:
  "ddof < length xs \<Longrightarrow>
     np_std ddof xs = Some (sqrt (sum_list (map (\<lambda>x. (x - sum_list xs / real (length xs))\<^sup>2) xs)
                         / real (length xs - ddof)))"
  by (simp add: np_std_def)

lemma np_std_single: "np_std 0 [x] = Some 0"
  by (simp add: np_std_def)

lemma averageHistogram_Inr:
  assumes ok: "averageHistogram a h = Inr res"
    and d: "concatHistograms a h = Some d"
    and first: "d (hd (repetitionList a)) = Some h0" "h0 \<noteq> []"
  shows "repetitionList a \<noteq> []"
    and "yMean res = map (\<lambda>k. np_mean (heights a h k)) [0 ..< length h0]"
    and "yStd res = map (\<lambda>k. np_std (if length (repetitionList a) > 1 then 1 else 0)
                                 (heights a h k)) [0 ..< length h0]"
proof -
  from ok obtain rows where
    rows: "mapM_err (\<lambda>rep. case getitem (concatHistograms a) h of
                 Inl e \<Rightarrow> Inl e | Inr d \<Rightarrow> getitem d rep) (repetitionList a) = Inr rows"
    by (auto simp: averageHistogram_def split: sum.splits)
  from ok rows have np: "np_array2 rows = Inr rows"
    by (auto simp: averageHistogram_def np_array2_def split: sum.splits if_splits)
  from ok rows np show ne: "repetitionList a \<noteq> []"
    by (auto simp: averageHistogram_def Let_def split: sum.splits list.splits)
  have f: "(case getitem (concatHistograms a) h of
                 Inl e \<Rightarrow> Inl e | Inr d \<Rightarrow> getitem d rep) = getitem d rep" for rep
    using d by (simp add: getitem_def)
  from mapM_err_Inr [OF rows]
  have r1: "rows = map (\<lambda>r. projr (getitem d r)) (repetitionList a)"
    and r2: "\<forall>r\<in>set (repetitionList a). \<not> isl (getitem d r)"
    by (simp_all add: f)
  have pr: "projr (getitem d r) = the (d r)" if "r \<in> set (repetitionList a)" for r
    using r2 that by (auto simp: getitem_def split: option.splits)
  have r3: "rows = map (\<lambda>r. the (d r)) (repetitionList a)"
    unfolding r1 using pr by simp
  from ne obtain r0 rs where reps: "repetitionList a = r0 # rs"
    by (cases "repetitionList a") auto
  with first have h0: "the (d r0) = h0" by simp
  have rows_cons: "rows = h0 # map (\<lambda>r. the (d r)) rs"
    using r3 reps h0 by simp
  have cols: "columns rows = map (\<lambda>k. heights a h k) [0 ..< length h0]"
    by (simp add: columns_def heights_def rows_cons reps h0 d comp_def)
  have len: "length rows = length (repetitionList a)"
    using r3 by simp
  have ymne: "map np_mean (columns rows) \<noteq> []"
    using cols first(2) by simp
  from ok rows np ymne reps
  have "yMean res = map np_mean (columns rows)
      \<and> yStd res = map (np_std (if length rows > 1 then 1 else 0)) (columns rows)"
    by (auto simp: averageHistogram_def Let_def split: sum.splits if_splits)
  then show "yMean res = map (\<lambda>k. np_mean (heights a h k)) [0 ..< length h0]"
    and "yStd res = map (\<lambda>k. np_std (if length (repetitionList a) > 1 then 1 else 0)
                                 (heights a h k)) [0 ..< length h0]"
    by (simp_all add: cols len comp_def)
qed

text \<open>
  Claim C7, amended. Per histogram bin, \<open>yMean\<close> is the mean of the heights over the
  repetitions and \<open>yStd\<close> their standard deviation, with \<open>ddof = 1\<close> for more than one
  repetition and \<open>ddof = 0\<close> otherwise; so with a single repetition every \<open>yStd\<close>
  is 0. (The histograms are taken to have at least one bin.)
\<close>

theorem averageHistogram_mean_std:
  assumes ok: "averageHistogram a h = Inr res"
    and d: "concatHistograms a h = Some d"
    and first: "d (hd (repetitionList a)) = Some h0" "h0 \<noteq> []"
  shows "length (yMean res) = length h0 \<and> length (yStd res) = length h0
     \<and> (\<forall>k<length h0.
          yMean res ! k
            = Some (sum_list (heights a h k) / real (length (repetitionList a)))
          \<and> yStd res ! k
            = Some (sqrt (sum_list (map (\<lambda>x. (x - sum_list (heights a h k)
                                                  / real (length (repetitionList a)))\<^sup>2)
                                     (heights a h k))
                          / real (length (repetitionList a)
                                  - (if length (repetitionList a) > 1 then 1 else 0)))))
     \<and> (length (repetitionList a) = 1 \<longrightarrow> (\<forall>k<length h0. yStd res ! k = Some 0))"
proof -
  note r = averageHistogram_Inr [OF ok d first]
  let ?R = "length (repetitionList a)"
  have hl: "length (heights a h k) = ?R" for k
    by (simp add: heights_def)
  from r(1) have Rpos: "0 < ?R" by simp
  have hne: "heights a h k \<noteq> []" for k
    using hl [of k] Rpos by auto
  have m: "np_mean (heights a h k) = Some (sum_list (heights a h k) / real ?R)" for k
    using np_mean_Some [OF hne [of k]] hl [of k] by simp
  have dd: "(if ?R > 1 then 1 else 0) < length (heights a h k)" for k
    using hl [of k] Rpos by auto
  have s: "np_std (if ?R > 1 then 1 else 0) (heights a h k)
      = Some (sqrt (sum_list (map (\<lambda>x. (x - sum_list (heights a h k) / real ?R)\<^sup>2)
                                     (heights a h k))
                          / real (?R - (if ?R > 1 then 1 else 0))))" for k
    using np_std_Some [OF dd [of k]] hl [of k] by simp
  have one: "yStd res ! k = Some 0" if "?R = 1" "k < length h0" for k
  proof -
    from that(1) obtain x where "heights a h k = [x]"
      using hl [of k] by (cases "heights a h k") auto
    with that r(3) show ?thesis by (simp add: np_std_single)
  qed
  have A: "length (yMean res) = length h0" "length (yStd res) = length h0"
    using r(2,3) by simp_all
  have C: "\<forall>k<length h0.
          yMean res ! k
            = Some (sum_list (heights a h k) / real (length (repetitionList a)))
          \<and> yStd res ! k
            = Some (sqrt (sum_list (map (\<lambda>x. (x - sum_list (heights a h k)
                                                  / real (length (repetitionList a)))\<^sup>2)
                                     (heights a h k))
                          / real (length (repetitionList a)
                                  - (if length (repetitionList a) > 1 then 1 else 0))))"
  proof (intro allI impI conjI)
    fix k assume k: "k < length h0"
    then have "yMean res ! k = np_mean (heights a h k)"
      by (simp add: r(2))
    then show "yMean res ! k
            = Some (sum_list (heights a h k) / real (length (repetitionList a)))"
      by (simp only: m)
    from k have "yStd res ! k = np_std (if ?R > 1 then 1 else 0) (heights a h k)"
      by (simp add: r(3))
    then show "yStd res ! k
            = Some (sqrt (sum_list (map (\<lambda>x. (x - sum_list (heights a h k)
                                                  / real (length (repetitionList a)))\<^sup>2)
                                     (heights a h k))
                          / real (length (repetitionList a)
                                  - (if length (repetitionList a) > 1 then 1 else 0))))"
      by (simp only: s)
  qed
  have D: "length (repetitionList a) = 1 \<longrightarrow> (\<forall>k<length h0. yStd res ! k = Some 0)"
    using one by blast
  from A C D show ?thesis by blast
qed

theorem averageHistogram_mean_std_witness:
  "\<exists>res. averageHistogram ex_an1 0 = Inr res \<and> yMean res = [Some 1, Some 3]
        \<and> yStd res = [Some 0, Some 0]"
proof -
  have "\<exists>res. averageHistogram ex_an1 0 = Inr res \<and> yMean res = [Some 1, Some 3]"
    by (simp add: averageHistogram_def check_binEdges_def getitem_def np_array2_def columns_def
      np_mean_def np_std_def np_diff_def np_binop_def ex_an1_def ex_an3_def Let_def)
  then obtain res where ok: "averageHistogram ex_an1 0 = Inr res"
    and ym: "yMean res = [Some 1, Some 3]"
    by blast
  have d: "concatHistograms ex_an1 0 = Some [0 \<mapsto> [1, 3]]"
    by (simp add: ex_an1_def ex_an3_def)
  have first: "[0 \<mapsto> [1, 3 :: real]] (hd (repetitionList ex_an1)) = Some [1, 3]" "[1, 3 :: real] \<noteq> []"
    by (simp_all add: ex_an1_def ex_an3_def)
  have one: "length (repetitionList ex_an1) = 1"
    by (simp add: ex_an1_def ex_an3_def)
  note t = averageHistogram_mean_std [OF ok d first]
  from t have len: "length (yStd res) = length [1, 3 :: real]"
    by blast
  from t one have z: "\<forall>k<length [1, 3 :: real]. yStd res ! k = Some 0"
    by blast
  have "yStd res = [Some 0, Some 0]"
    using len z by (intro nth_equalityI) (auto simp: less_Suc_eq)
  with ok ym show ?thesis by blast
qed

lemma dict_set_fresh: "k \<notin> fst ` set d \<Longrightarrow> dict_set d k v = d @ [(k, v)]"
  by (induction d) auto

lemma histAndLoadReps_ranges_frame:
  "histAndLoadReps_ranges mh rep hrs a = Inr a' \<Longrightarrow>
     concatI a' = concatI a \<and> an_measData a' = an_measData a
     \<and> histRanges a' = histRanges a \<and> repetitionList a' = repetitionList a"
proof (induction hrs arbitrary: a)
  case Nil
  then show ?case by simp
next
  case (Cons x hrs)
  obtain histIndex hr where x: "x = (histIndex, hr)" by (cases x)
  from Cons.prems x obtain a3 where
    a3: "histAndLoadReps_ranges mh rep hrs a3 = Inr a'"
    and fr: "concatI a3 = concatI a \<and> an_measData a3 = an_measData a
     \<and> histRanges a3 = histRanges a \<and> repetitionList a3 = repetitionList a"
    by (auto simp: Let_def ensureConcatEssentials_def split: sum.splits)
  from Cons.IH [OF a3] fr show ?case by simp
qed

lemma histAndLoadReps_loop_concatI:
  "histAndLoadReps_loop E H f st reps a = Inr a' \<Longrightarrow> distinct reps \<Longrightarrow>
     \<forall>r\<in>set reps. r \<notin> fst ` set (concatI a) \<Longrightarrow>
     concatI a' = concatI a @ map (\<lambda>r. (r, scaled_I E (an_measData a) f r)) reps
     \<and> (\<forall>r\<in>set reps. \<exists>core. McCore_init E (an_measData a) None None (Some f) (Some r) = Inr core)"
proof (induction reps arbitrary: a)
  case Nil
  then show ?case by simp
next
  case (Cons rep reps)
  from Cons.prems(1) obtain core where
    core: "McCore_init E (an_measData a) None None (Some f) (Some rep) = Inr core"
    by (auto split: sum.splits)
  define v where "v = map (\<lambda>x. x * fst (x0 (opt core)) + snd (x0 (opt core))) (modelI (opt core))"
  have sc: "scaled_I E (an_measData a) f rep = v"
    by (simp add: scaled_I_def core v_def mult.commute)
  from Cons.prems(1) core obtain a3 where
    lp: "histAndLoadReps_loop E H f st reps a3 = Inr a'"
    and fr: "concatI a3 = dict_set (concatI a) rep v" "an_measData a3 = an_measData a"
    by (auto simp: Let_def v_def split: sum.splits option.splits if_splits
        dest!: histAndLoadReps_ranges_frame)
  from Cons.prems(3) have "rep \<notin> fst ` set (concatI a)" by simp
  then have ci: "concatI a3 = concatI a @ [(rep, v)]"
    using fr(1) by (simp add: dict_set_fresh)
  from Cons.prems(2) have d: "distinct reps" and nr: "rep \<notin> set reps" by simp_all
  have fresh: "\<forall>r\<in>set reps. r \<notin> fst ` set (concatI a3)"
    using Cons.prems(3) nr ci by auto
  from Cons.IH [OF lp d fresh] fr(2) ci sc core show ?case by simp
qed

subsection \<open>The mean scaled model intensity\<close>

text \<open>
  For every repetition the aggregator reloads the core and tabulates the scaled
  intensity, scaling times \<open>modelI\<close> plus background. For an aggregator that starts
  with an empty \<open>concatI\<close>, as the first one of a process does, and a list of distinct
  repetitions, \<open>modelIMean\<close> and \<open>modelIStd\<close> are, per Q point, the mean and the
  standard deviation (numpy's default, dividing by the number of values) of these
  vectors over the repetitions of \<open>repetitionList\<close>.
\<close>

lemma averageI_of_fresh_tables:
  assumes hl: "histAndLoadReps E H a f st = Inr a'"
    and fresh: "concatI a = []"
    and dist: "distinct (repetitionList a)"
  shows "(\<forall>r\<in>set (repetitionList a).
            \<exists>core. McCore_init E (an_measData a) None None (Some f) (Some r) = Inr core
              \<and> scaled_I E (an_measData a) f r
                  = map (\<lambda>m. fst (x0 (opt core)) * m + snd (x0 (opt core))) (modelI (opt core)))
     \<and> concatI a' = map (\<lambda>r. (r, scaled_I E (an_measData a) f r)) (repetitionList a)
     \<and> (\<forall>res. averageI a' = Inr res \<longrightarrow>
           length (modelIMean res) = length (scaled_I E (an_measData a) f (hd (repetitionList a)))
           \<and> length (modelIStd res) = length (modelIMean res)
           \<and> (\<forall>k<length (modelIMean res).
                 modelIMean res ! k
                   = Some (sum_list (map (\<lambda>r. scaled_I E (an_measData a) f r ! k) (repetitionList a))
                           / real (length (repetitionList a)))
                 \<and> modelIStd res ! k
                   = Some (sqrt (sum_list (map (\<lambda>r. (scaled_I E (an_measData a) f r ! k
                              - sum_list (map (\<lambda>r. scaled_I E (an_measData a) f r ! k)
                                            (repetitionList a))
                                / real (length (repetitionList a)))\<^sup>2) (repetitionList a))
                           / real (length (repetitionList a))))))"
proof -
  let ?reps = "repetitionList a"
  let ?S = "\<lambda>r. scaled_I E (an_measData a) f r"
  from hl have lp: "histAndLoadReps_loop E H f st ?reps a = Inr a'"
    by (simp add: histAndLoadReps_def)
  have fr: "\<forall>r\<in>set ?reps. r \<notin> fst ` set (concatI a)"
    using fresh by simp
  note L = histAndLoadReps_loop_concatI [OF lp dist fr]
  have A: "\<forall>r\<in>set ?reps.
            \<exists>core. McCore_init E (an_measData a) None None (Some f) (Some r) = Inr core
              \<and> ?S r = map (\<lambda>m. fst (x0 (opt core)) * m + snd (x0 (opt core))) (modelI (opt core))"
  proof
    fix r assume "r \<in> set ?reps"
    with L obtain core where
      c: "McCore_init E (an_measData a) None None (Some f) (Some r) = Inr core" by blast
    then have "?S r = map (\<lambda>m. fst (x0 (opt core)) * m + snd (x0 (opt core))) (modelI (opt core))"
      by (simp add: scaled_I_def)
    with c show "\<exists>core. McCore_init E (an_measData a) None None (Some f) (Some r) = Inr core
              \<and> ?S r = map (\<lambda>m. fst (x0 (opt core)) * m + snd (x0 (opt core))) (modelI (opt core))"
      by blast
  qed
  have B: "concatI a' = map (\<lambda>r. (r, ?S r)) ?reps"
    using L fresh by simp
  have C: "length (modelIMean res) = length (?S (hd ?reps))
           \<and> length (modelIStd res) = length (modelIMean res)
           \<and> (\<forall>k<length (modelIMean res).
                 modelIMean res ! k
                   = Some (sum_list (map (\<lambda>r. ?S r ! k) ?reps) / real (length ?reps))
                 \<and> modelIStd res ! k
                   = Some (sqrt (sum_list (map (\<lambda>r. (?S r ! k
                              - sum_list (map (\<lambda>r. ?S r ! k) ?reps) / real (length ?reps))\<^sup>2) ?reps)
                           / real (length ?reps))))"
    if av: "averageI a' = Inr res" for res
  proof -
    define rows where "rows = map ?S ?reps"
    have rows: "map snd (concatI a') = rows"
      by (simp add: B rows_def comp_def)
    from av rows have ne: "rows \<noteq> []"
      and res: "res = \<lparr>modelIMean = map np_mean (columns rows),
                       modelIStd = map (np_std 0) (columns rows)\<rparr>"
      by (auto simp: averageI_def np_array2_def split: sum.splits if_splits)
    from ne obtain r0 rs where reps: "?reps = r0 # rs"
      by (cases ?reps) (auto simp: rows_def)
    define K where "K = length (?S r0)"
    define col where "col = (\<lambda>k. map (\<lambda>r. ?S r ! k) ?reps)"
    have cols: "columns rows = map col [0 ..< K]"
      by (simp add: columns_def rows_def reps K_def col_def comp_def)
    have cl: "length (col k) = length ?reps" for k
      by (simp add: col_def)
    have cne: "col k \<noteq> []" for k
      using reps by (simp add: col_def)
    have m: "np_mean (col k) = Some (sum_list (col k) / real (length ?reps))" for k
      using np_mean_Some [OF cne [of k]] cl [of k] by simp
    have pos: "0 < length (col k)" for k
      using cne [of k] by simp
    have s: "np_std 0 (col k)
        = Some (sqrt (sum_list (map (\<lambda>x. (x - sum_list (col k) / real (length ?reps))\<^sup>2) (col k))
                       / real (length ?reps)))" for k
      using np_std_Some [OF pos [of k]] cl [of k] by simp
    have s': "sum_list (map (\<lambda>x. (x - sum_list (col k) / real (length ?reps))\<^sup>2) (col k))
        = sum_list (map (\<lambda>r. (?S r ! k - sum_list (col k) / real (length ?reps))\<^sup>2) ?reps)" for k
      by (simp add: col_def comp_def)
    have l1: "length (modelIMean res) = K" "length (modelIStd res) = K"
      by (simp_all add: res cols)
    have hdr: "hd ?reps = r0" by (simp add: reps)
    have pt: "modelIMean res ! k = Some (sum_list (col k) / real (length ?reps))
        \<and> modelIStd res ! k
            = Some (sqrt (sum_list (map (\<lambda>r. (?S r ! k
                              - sum_list (col k) / real (length ?reps))\<^sup>2) ?reps)
                           / real (length ?reps)))" if "k < K" for k
    proof -
      from that have "modelIMean res ! k = np_mean (col k)" "modelIStd res ! k = np_std 0 (col k)"
        by (simp_all add: res cols)
      then show ?thesis by (simp only: m s s')
    qed
    show ?thesis
      using l1 pt by (simp add: hdr K_def col_def)
  qed
  from A B C show ?thesis by blast
qed

lemma histAndLoadReps_loop_adds:
  "histAndLoadReps_loop E H f st reps a = Inr a' \<Longrightarrow>
     concatI a' = foldl (\<lambda>d r. dict_set d r (scaled_I E (an_measData a) f r)) (concatI a) reps"
proof (induction reps arbitrary: a)
  case Nil
  then show ?case by simp
next
  case (Cons rep reps)
  from Cons.prems obtain core where
    core: "McCore_init E (an_measData a) None None (Some f) (Some rep) = Inr core"
    by (auto split: sum.splits)
  define v where "v = map (\<lambda>x. x * fst (x0 (opt core)) + snd (x0 (opt core))) (modelI (opt core))"
  have sc: "scaled_I E (an_measData a) f rep = v"
    by (simp add: scaled_I_def core v_def mult.commute)
  from Cons.prems core obtain a3 where
    lp: "histAndLoadReps_loop E H f st reps a3 = Inr a'"
    and fr: "concatI a3 = dict_set (concatI a) rep v" "an_measData a3 = an_measData a"
    by (auto simp: Let_def v_def split: sum.splits option.splits if_splits
        dest!: histAndLoadReps_ranges_frame)
  from Cons.IH [OF lp] fr sc show ?case by simp
qed

lemma getNRep_ex_run: "getNRep ex_nenv a ''run.nxs'' = Inr (a\<lparr>repetitionList := [0, 1]\<rparr>)"
  by (simp add: getNRep_def ex_nenv_def py_strip_def)

lemma getNRep_ex_single: "getNRep ex_nenv a ''single.nxs'' = Inr (a\<lparr>repetitionList := [0]\<rparr>)"
  by (simp add: getNRep_def ex_nenv_def py_strip_def)

text \<open>
  Claim C9. The mean and the standard deviation are not taken over the discovered
  repetitions in every aggregator. \<^verbatim>\<open>_concatI\<close> is a dict of the class, written in
  place by \<^verbatim>\<open>histAndLoadReps\<close> and never emptied, where the constructor replaces
  \<^verbatim>\<open>_concatOpts\<close> and \<^verbatim>\<open>getNRep\<close> replaces \<^verbatim>\<open>_repetitionList\<close>;
  \<^verbatim>\<open>averageI\<close> averages every row of it. Here a first aggregator reads a file with
  the repetitions 0 and 1, of scaled intensities \<open>[3, 5]\<close> and \<open>[5, 9]\<close>, and a
  second aggregator of the same process reads a file with repetition 0 alone, of scaled
  intensity \<open>[3, 5]\<close>. The table of the second still holds the row of repetition 1:
  its \<open>modelIMean\<close> is \<open>[4, 7]\<close> and its \<open>modelIStd\<close> is \<open>[1, 2]\<close>, where
  the one repetition it discovered has the mean \<open>[3, 5]\<close> and the deviation
  \<open>[0, 0]\<close>.
\<close>

theorem second_aggregator_averages_stale_rows:
  "\<exists>a1 a2 res.
       getNRep ex_nenv ex_an0 ''run.nxs'' = Inr ex_an0
     \<and> histAndLoadReps ex_env_an ex_henv ex_an0 ''run.nxs'' False = Inr a1
     \<and> getNRep ex_nenv (ex_second a1) ''single.nxs'' = Inr ((ex_second a1)\<lparr>repetitionList := [0]\<rparr>)
     \<and> histAndLoadReps ex_env_an ex_henv ((ex_second a1)\<lparr>repetitionList := [0]\<rparr>) ''single.nxs'' False
         = Inr a2
     \<and> scaled_I ex_env_an ex_measData ''single.nxs'' 0 = [3, 5]
     \<and> concatI a2 = [(0, [3, 5]), (1, [5, 9])]
     \<and> averageI a2 = Inr res
     \<and> modelIMean res = [Some 4, Some 7] \<and> modelIStd res = [Some 1, Some 2]"
proof -
  have c0: "\<exists>core. McCore_init ex_env_an ex_measData None None (Some f) (Some 0) = Inr core
      \<and> modelI (opt core) = [1, 2] \<and> x0 (opt core) = (2, 1)" for f
    by (simp add: McCore_init_def load_def initModelI_def upto.simps np_iadd_def
        ex_env_an_def ex_approx_def ex_match2_def ex_defs run_defs)
  have c1: "\<exists>core. McCore_init ex_env_an ex_measData None None (Some f) (Some 1) = Inr core
      \<and> modelI (opt core) = [2, 4] \<and> x0 (opt core) = (2, 1)" for f
    by (simp add: McCore_init_def load_def initModelI_def upto.simps np_iadd_def
        ex_env_an_def ex_approx_def ex_match2_def ex_defs run_defs)
  have s0: "scaled_I ex_env_an ex_measData f 0 = [3, 5]" for f
    using c0 [of f] by (auto simp: scaled_I_def)
  have s1: "scaled_I ex_env_an ex_measData f 1 = [5, 9]" for f
    using c1 [of f] by (auto simp: scaled_I_def)
  have g1: "getNRep ex_nenv ex_an0 ''run.nxs'' = Inr ex_an0"
    by (simp add: getNRep_ex_run ex_an0_def)
  from c0 [of "''run.nxs''"] c1 [of "''run.nxs''"]
  have "\<exists>a'. histAndLoadReps ex_env_an ex_henv ex_an0 ''run.nxs'' False = Inr a'"
    by (auto simp: histAndLoadReps_def ex_an0_def ex_henv_def Let_def
        ensureConcatEssentials_def getitem_def)
  then obtain a1 where hl1: "histAndLoadReps ex_env_an ex_henv ex_an0 ''run.nxs'' False = Inr a1"
    by blast
  from hl1 have "concatI a1
      = foldl (\<lambda>d r. dict_set d r (scaled_I ex_env_an (an_measData ex_an0) ''run.nxs'' r))
          (concatI ex_an0) (repetitionList ex_an0)"
    unfolding histAndLoadReps_def by (rule histAndLoadReps_loop_adds)
  then have ci1: "concatI a1 = [(0, [3, 5]), (1, [5, 9])]"
    by (simp add: ex_an0_def s0 s1)
  define b where "b = (ex_second a1)\<lparr>repetitionList := [0]\<rparr>"
  have bf: "an_measData b = ex_measData" "histRanges b = [(0, ex_range)]"
    "repetitionList b = [0]" "concatI b = [(0, [3, 5]), (1, [5, 9])]"
    by (simp_all add: b_def ex_second_def ci1)
  from c0 [of "''single.nxs''"]
  have "\<exists>a'. histAndLoadReps ex_env_an ex_henv b ''single.nxs'' False = Inr a'"
    by (auto simp: histAndLoadReps_def bf ex_henv_def Let_def getitem_def)
  then obtain a2 where hl2: "histAndLoadReps ex_env_an ex_henv b ''single.nxs'' False = Inr a2"
    by blast
  from hl2 have "concatI a2
      = foldl (\<lambda>d r. dict_set d r (scaled_I ex_env_an (an_measData b) ''single.nxs'' r))
          (concatI b) (repetitionList b)"
    unfolding histAndLoadReps_def by (rule histAndLoadReps_loop_adds)
  then have ci2: "concatI a2 = [(0, [3, 5]), (1, [5, 9])]"
    by (simp add: bf s0)
  have av: "\<exists>res. averageI a2 = Inr res
      \<and> modelIMean res = [Some 4, Some 7] \<and> modelIStd res = [Some 1, Some 2]"
    by (simp add: averageI_def ci2 np_array2_def columns_def np_mean_def np_std_def)
  from g1 hl1 hl2 s0 ci2 av show ?thesis
    unfolding b_def by (auto simp: getNRep_ex_single)
qed

section \<open>Properties of the HDF5 helper\<close>

lemma create_group_effect:
  "create_group h pre rest = Inr h' \<Longrightarrow>
     (\<forall>q x. h q = Some x \<longrightarrow> h' q = Some x)
     \<and> (\<forall>q. h q = None \<and> h' q \<noteq> None \<longrightarrow>
           h' q = Some H5Group \<and> (\<exists>n. 0 < n \<and> n \<le> length rest \<and> q = pre @ take n rest))
     \<and> (\<forall>n. 0 < n \<and> n \<le> length rest \<longrightarrow> h' (pre @ take n rest) = Some H5Group)"
proof (induction h pre rest arbitrary: h' rule: create_group.induct)
  case (1 h pre)
  then show ?case by auto
next
  case (2 h pre n rest)
  show ?case
  proof (cases "h (pre @ [n])")
    case None
    with "2.prems" have cg: "create_group (h(pre @ [n] \<mapsto> H5Group)) (pre @ [n]) rest = Inr h'"
      by simp
    note IH = "2.IH"(1) [OF None cg]
    have a: "\<forall>q x. h q = Some x \<longrightarrow> h' q = Some x"
      using IH None by (metis fun_upd_apply option.distinct(1))
    have top: "h' (pre @ [n]) = Some H5Group"
      using IH by simp
    have b: "\<forall>q. h q = None \<and> h' q \<noteq> None \<longrightarrow>
           h' q = Some H5Group \<and> (\<exists>m. 0 < m \<and> m \<le> length (n # rest) \<and> q = pre @ take m (n # rest))"
    proof (intro allI impI)
      fix q assume q: "h q = None \<and> h' q \<noteq> None"
      show "h' q = Some H5Group \<and> (\<exists>m. 0 < m \<and> m \<le> length (n # rest) \<and> q = pre @ take m (n # rest))"
      proof (cases "q = pre @ [n]")
        case True
        have "0 < Suc 0 \<and> Suc 0 \<le> length (n # rest) \<and> q = pre @ take (Suc 0) (n # rest)"
          using True by simp
        with top True show ?thesis by blast
      next
        case False
        with q have "(h(pre @ [n] \<mapsto> H5Group)) q = None \<and> h' q \<noteq> None" by simp
        with IH obtain m where g: "h' q = Some H5Group" and
          m: "0 < m" "m \<le> length rest" "q = (pre @ [n]) @ take m rest"
          by blast
        from m have "0 < Suc m \<and> Suc m \<le> length (n # rest) \<and> q = pre @ take (Suc m) (n # rest)"
          by simp
        with g show ?thesis by blast
      qed
    qed
    have c: "\<forall>m. 0 < m \<and> m \<le> length (n # rest) \<longrightarrow> h' (pre @ take m (n # rest)) = Some H5Group"
    proof (intro allI impI)
      fix m assume m: "0 < m \<and> m \<le> length (n # rest)"
      then obtain j where j: "m = Suc j" by (cases m) auto
      show "h' (pre @ take m (n # rest)) = Some H5Group"
      proof (cases j)
        case 0
        with j top show ?thesis by simp
      next
        case (Suc i)
        with j m IH show ?thesis by simp
      qed
    qed
    from a b c show ?thesis by blast
  next
    case (Some node)
    show ?thesis
    proof (cases node)
      case H5Group
      with Some "2.prems" have cg: "create_group h (pre @ [n]) rest = Inr h'"
        by simp
      note IH = "2.IH"(2) [OF Some H5Group cg]
      have top: "h' (pre @ [n]) = Some H5Group"
        using IH Some H5Group by simp
      have b: "\<forall>q. h q = None \<and> h' q \<noteq> None \<longrightarrow>
           h' q = Some H5Group \<and> (\<exists>m. 0 < m \<and> m \<le> length (n # rest) \<and> q = pre @ take m (n # rest))"
      proof (intro allI impI)
        fix q assume q: "h q = None \<and> h' q \<noteq> None"
        with IH obtain m where g: "h' q = Some H5Group" and
          m: "0 < m" "m \<le> length rest" "q = (pre @ [n]) @ take m rest"
          by blast
        from m have "0 < Suc m \<and> Suc m \<le> length (n # rest) \<and> q = pre @ take (Suc m) (n # rest)"
          by simp
        with g show "h' q = Some H5Group \<and> (\<exists>m. 0 < m \<and> m \<le> length (n # rest) \<and> q = pre @ take m (n # rest))"
          by blast
      qed
      have c: "\<forall>m. 0 < m \<and> m \<le> length (n # rest) \<longrightarrow> h' (pre @ take m (n # rest)) = Some H5Group"
      proof (intro allI impI)
        fix m assume m: "0 < m \<and> m \<le> length (n # rest)"
        then obtain j where j: "m = Suc j" by (cases m) auto
        show "h' (pre @ take m (n # rest)) = Some H5Group"
        proof (cases j)
          case 0
          with j top show ?thesis by simp
        next
          case (Suc i)
          with j m IH show ?thesis by simp
        qed
      qed
      from IH b c show ?thesis by blast
    next
      case (H5Dataset d)
      with Some "2.prems" show ?thesis by simp
    qed
  qed
qed

lemma create_group_succeeds:
  "(\<forall>n v. 0 < n \<and> n \<le> length rest \<longrightarrow> h (pre @ take n rest) \<noteq> Some (H5Dataset v)) \<Longrightarrow>
     \<exists>h'. create_group h pre rest = Inr h'"
proof (induction h pre rest rule: create_group.induct)
  case (1 h pre)
  then show ?case by simp
next
  case (2 h pre n rest)
  have nd: "\<forall>v. h (pre @ [n]) \<noteq> Some (H5Dataset v)"
  proof
    fix v
    from "2.prems" have "0 < Suc 0 \<and> Suc 0 \<le> length (n # rest) \<longrightarrow>
        h (pre @ take (Suc 0) (n # rest)) \<noteq> Some (H5Dataset v)" by blast
    then show "h (pre @ [n]) \<noteq> Some (H5Dataset v)" by simp
  qed
  have rest: "\<forall>m v. 0 < m \<and> m \<le> length rest \<longrightarrow> h ((pre @ [n]) @ take m rest) \<noteq> Some (H5Dataset v)"
  proof (intro allI impI)
    fix m v assume m: "0 < m \<and> m \<le> length rest"
    with "2.prems" have "h (pre @ take (Suc m) (n # rest)) \<noteq> Some (H5Dataset v)"
      by (metis Suc_le_mono length_Cons zero_less_Suc)
    then show "h ((pre @ [n]) @ take m rest) \<noteq> Some (H5Dataset v)" by simp
  qed
  show ?case
  proof (cases "h (pre @ [n])")
    case None
    have "\<forall>m v. 0 < m \<and> m \<le> length rest \<longrightarrow>
        (h(pre @ [n] \<mapsto> H5Group)) ((pre @ [n]) @ take m rest) \<noteq> Some (H5Dataset v)"
      using rest by simp
    from "2.IH"(1) [OF None this] obtain h' where
      "create_group (h(pre @ [n] \<mapsto> H5Group)) (pre @ [n]) rest = Inr h'" by blast
    with None have "create_group h pre (n # rest) = Inr h'" by simp
    then show ?thesis by blast
  next
    case (Some node)
    with nd obtain g: "node = H5Group" by (cases node) auto
    from "2.IH"(2) [OF Some g rest] obtain h' where
      "create_group h (pre @ [n]) rest = Inr h'" by blast
    with Some g have "create_group h pre (n # rest) = Inr h'" by simp
    then show ?thesis by blast
  qed
qed

lemma storeKV_body_None:
  assumes b: "storeKV_body w E h0 p k PNone = (h1, err)"
    and root: "h0 [] = Some H5Group"
  shows "(\<forall>q v. h1 q = Some (H5Dataset v) \<longleftrightarrow> h0 q = Some (H5Dataset v))
     \<and> (\<forall>q x. h0 q = Some x \<longrightarrow> h1 q = Some x)
     \<and> h1 (p @ [k]) = h0 (p @ [k])
     \<and> (err = None \<longrightarrow> h1 p = Some H5Group)
     \<and> (w \<and> (\<forall>n v. n \<le> length p \<longrightarrow> h0 (take n p) \<noteq> Some (H5Dataset v)) \<longrightarrow> err = None)
     \<and> (\<not> w \<longrightarrow> h1 = h0 \<and> (err = None \<longleftrightarrow> h0 p = Some H5Group))"
proof (cases "require_group w h0 p")
  case (Inl e)
  with b have eq: "h1 = h0" "err = Some e"
    by (simp_all add: storeKV_body_def)
  have "\<not> (w \<and> (\<forall>n v. n \<le> length p \<longrightarrow> h0 (take n p) \<noteq> Some (H5Dataset v)))"
  proof
    assume a: "w \<and> (\<forall>n v. n \<le> length p \<longrightarrow> h0 (take n p) \<noteq> Some (H5Dataset v))"
    then have "\<forall>n v. 0 < n \<and> n \<le> length p \<longrightarrow> h0 ([] @ take n p) \<noteq> Some (H5Dataset v)"
      by simp
    from create_group_succeeds [OF this] obtain h' where "create_group h0 [] p = Inr h'"
      by blast
    moreover from a have "\<forall>v. h0 p \<noteq> Some (H5Dataset v)"
      by (metis order_refl take_all)
    ultimately show False
      using Inl a by (auto simp: require_group_def split: option.splits h5node.splits)
  qed
  moreover from Inl have "h0 p \<noteq> Some H5Group"
    by (auto simp: require_group_def)
  ultimately show ?thesis using eq by simp
next
  case (Inr h)
  with b have eq: "h1 = h" "err = None"
    by (simp_all add: storeKV_body_def)
  show ?thesis
  proof (cases "h0 p")
    case None
    with Inr have w: "w" and cg: "create_group h0 [] p = Inr h"
      by (auto simp: require_group_def split: if_splits)
    note ef = create_group_effect [OF cg]
    from None root have pne: "p \<noteq> []" by auto
    have keep: "\<forall>q x. h0 q = Some x \<longrightarrow> h q = Some x"
      using ef by blast
    have ds: "\<forall>q v. h q = Some (H5Dataset v) \<longleftrightarrow> h0 q = Some (H5Dataset v)"
    proof (intro allI iffI)
      fix q v assume hq: "h q = Some (H5Dataset v)"
      show "h0 q = Some (H5Dataset v)"
      proof (cases "h0 q")
        case None
        with hq ef have "h q = Some H5Group" by (metis option.distinct(1))
        with hq show ?thesis by simp
      next
        case (Some x)
        with keep hq show ?thesis by auto
      qed
    next
      fix q v assume "h0 q = Some (H5Dataset v)"
      with keep show "h q = Some (H5Dataset v)" by blast
    qed
    have key: "h (p @ [k]) = h0 (p @ [k])"
    proof (cases "h0 (p @ [k])")
      case (Some x)
      with keep show ?thesis by simp
    next
      case nk: None
      show ?thesis
      proof (rule ccontr)
        assume "h (p @ [k]) \<noteq> h0 (p @ [k])"
        with nk have "h0 (p @ [k]) = None \<and> h (p @ [k]) \<noteq> None" by simp
        with ef obtain n where "n \<le> length p" "p @ [k] = [] @ take n p" by blast
        then have "length (p @ [k]) \<le> length p"
          by (metis append_Nil length_take min.cobounded1)
        then show False by simp
      qed
    qed
    have grp: "h p = Some H5Group"
    proof -
      from pne have "0 < length p \<and> length p \<le> length p" by simp
      with ef have "h ([] @ take (length p) p) = Some H5Group" by blast
      then show ?thesis by simp
    qed
    from eq keep ds key grp w show ?thesis by simp
  next
    case (Some node)
    with Inr have "h = h0" "node = H5Group"
      by (auto simp: require_group_def split: h5node.splits)
    with eq Some show ?thesis by simp
  qed
qed

text \<open>
  The group at the path is not created in every case. The result file of the example
  holds the group \<^verbatim>\<open>entry1\<close> and the dataset \<^verbatim>\<open>entry1/gof\<close>. Opened for reading
  only, the call with the absent group \<^verbatim>\<open>entry1/analysis\<close> raises \<^verbatim>\<open>ValueError\<close> and
  the group is still absent; opened for writing, so does the call with the absent group
  \<^verbatim>\<open>entry1/gof/fit\<close>, whose path leads through the dataset.
\<close>

theorem group_not_created_counterexample:
  "HDFstoreKV (ex_hdf_env\<lparr>default_mode := ReadOnly\<rparr>) ex_fs (Some ''out.nxs'')
       (Some [''entry1'', ''analysis'']) (Some ''gof'') PNone
     = (ex_fs, Some ValueError)
   \<and> file_content ex_fs ''out.nxs'' [''entry1'', ''analysis''] = None
   \<and> HDFstoreKV ex_hdf_env ex_fs (Some ''out.nxs'')
       (Some [''entry1'', ''gof'', ''fit'']) (Some ''gof'') PNone
     = (ex_fs, Some ValueError)
   \<and> file_content ex_fs ''out.nxs'' [''entry1'', ''gof'', ''fit''] = None"
  by (simp add: HDFstoreKV_def storeKV_body_def require_group_def ex_hdf_env_def ex_fs_def
      ex_h5_def file_content_def)

text \<open>
  Claim C10, amended. \<^verbatim>\<open>_HDFstoreKV\<close> with the value \<^verbatim>\<open>None\<close> writes no dataset,
  whatever the mode the file is opened in and whatever the path: no other file is
  touched, the file afterwards holds exactly the datasets it held before, with their
  values, and every group it held, and what is stored under the key is as before. The
  group at the path exists afterwards if no exception was raised; with the file opened
  for writing (the default of h5py before version 3) none is raised, so the group is
  created if absent, unless the path leads to or through a dataset.
\<close>

theorem storeKV_None_writes_no_dataset:
  assumes st: "HDFstoreKV E fs (Some f) (Some p) (Some k) PNone = (fs', err)"
    and root: "file_content fs f [] = Some H5Group"
  shows "(\<forall>g. g \<noteq> f \<longrightarrow> fs' g = fs g)
     \<and> (\<forall>q v. file_content fs' f q = Some (H5Dataset v)
                 \<longleftrightarrow> file_content fs f q = Some (H5Dataset v))
     \<and> (\<forall>q x. file_content fs f q = Some x \<longrightarrow> file_content fs' f q = Some x)
     \<and> file_content fs' f (p @ [k]) = file_content fs f (p @ [k])
     \<and> (err = None \<longrightarrow> file_content fs' f p = Some H5Group)
     \<and> (default_mode E = Append
          \<and> (\<forall>n v. n \<le> length p \<longrightarrow> file_content fs f (take n p) \<noteq> Some (H5Dataset v))
          \<longrightarrow> err = None)"
proof (cases "default_mode E")
  case Append
  define h0 where "h0 = file_content fs f"
  from st Append obtain h1 where
    b: "storeKV_body True E h0 p k PNone = (h1, err)" and fs': "fs' = fs(f \<mapsto> h1)"
    by (auto simp: HDFstoreKV_def h0_def file_content_def Let_def split: prod.splits)
  from fs' have c: "file_content fs' f = h1"
    by (simp add: file_content_def)
  from root have r: "h0 [] = Some H5Group"
    by (simp add: h0_def)
  from storeKV_body_None [OF b r] fs' Append show ?thesis
    unfolding c h0_def by simp
next
  case ReadOnly
  show ?thesis
  proof (cases "fs f")
    case None
    with st ReadOnly have "fs' = fs" "err = Some FileNotFoundError"
      by (simp_all add: HDFstoreKV_def)
    with None ReadOnly show ?thesis by simp
  next
    case (Some h0)
    with st ReadOnly obtain h1 where
      b: "storeKV_body False E h0 p k PNone = (h1, err)" and fs': "fs' = fs(f \<mapsto> h1)"
      by (auto simp: HDFstoreKV_def Let_def split: prod.splits)
    from fs' have c: "file_content fs' f = h1"
      by (simp add: file_content_def)
    from Some have c0: "file_content fs f = h0"
      by (simp add: file_content_def)
    from root have r: "h0 [] = Some H5Group"
      by (simp add: c0)
    from storeKV_body_None [OF b r] fs' ReadOnly Some show ?thesis
      unfolding c c0 by simp
  qed
qed

theorem storeKV_None_writes_no_dataset_witness:
  "\<exists>fs'. HDFstoreKV ex_hdf_env ex_fs (Some ''out.nxs'') (Some [''entry1'', ''analysis''])
            (Some ''gof'') PNone = (fs', None)
     \<and> file_content fs' ''out.nxs'' [''entry1'', ''analysis''] = Some H5Group
     \<and> file_content fs' ''out.nxs'' [''entry1'', ''analysis'', ''gof''] = None
     \<and> file_content fs' ''out.nxs'' [''entry1'', ''gof'']
         = Some (H5Dataset \<lparr>dtype = ''float64'', shape = [], items = [SReal 2]\<rparr>)"
proof -
  obtain fs' err where
    st: "HDFstoreKV ex_hdf_env ex_fs (Some ''out.nxs'') (Some [''entry1'', ''analysis''])
            (Some ''gof'') PNone = (fs', err)"
    by (cases "HDFstoreKV ex_hdf_env ex_fs (Some ''out.nxs'') (Some [''entry1'', ''analysis''])
            (Some ''gof'') PNone") blast
  have c0: "file_content ex_fs ''out.nxs'' = ex_h5"
    by (simp add: file_content_def ex_fs_def)
  have root: "file_content ex_fs ''out.nxs'' [] = Some H5Group"
    by (simp add: c0 ex_h5_def)
  have mode: "default_mode ex_hdf_env = Append"
    by (simp add: ex_hdf_env_def)
  note main = storeKV_None_writes_no_dataset [OF st root, unfolded c0]
  from main have
    keep: "\<forall>q x. ex_h5 q = Some x \<longrightarrow> file_content fs' ''out.nxs'' q = Some x"
    by blast
  from main have
    key: "file_content fs' ''out.nxs'' ([''entry1'', ''analysis''] @ [''gof''])
            = ex_h5 ([''entry1'', ''analysis''] @ [''gof''])"
    by blast
  from main have
    grp: "err = None \<longrightarrow> file_content fs' ''out.nxs'' [''entry1'', ''analysis''] = Some H5Group"
    by blast
  from main mode have
    ok: "(\<forall>n v. n \<le> length [''entry1'', ''analysis''] \<longrightarrow>
                ex_h5 (take n [''entry1'', ''analysis'']) \<noteq> Some (H5Dataset v)) \<longrightarrow> err = None"
    by blast
  have "\<forall>n v. n \<le> length [''entry1'', ''analysis''] \<longrightarrow>
                ex_h5 (take n [''entry1'', ''analysis'']) \<noteq> Some (H5Dataset v)"
  proof (intro allI impI)
    fix n :: nat and v assume "n \<le> length [''entry1'', ''analysis'']"
    then have "n = 0 \<or> n = 1 \<or> n = 2" by auto
    then show "ex_h5 (take n [''entry1'', ''analysis'']) \<noteq> Some (H5Dataset v)"
      by (auto simp: ex_h5_def)
  qed
  with ok have e: "err = None" by blast
  have "ex_h5 [''entry1'', ''gof'']
      = Some (H5Dataset \<lparr>dtype = ''float64'', shape = [], items = [SReal 2]\<rparr>)"
    by (simp add: ex_h5_def)
  with keep have "file_content fs' ''out.nxs'' [''entry1'', ''gof'']
      = Some (H5Dataset \<lparr>dtype = ''float64'', shape = [], items = [SReal 2]\<rparr>)" by blast
  moreover from key have "file_content fs' ''out.nxs'' [''entry1'', ''analysis'', ''gof''] = None"
    by (simp add: ex_h5_def)
  ultimately show ?thesis using st e grp by simp
qed

end
